theory Spec2Isabelle
  imports Complex_Main "HOL-Library.AList" "HOL-Library.Char_ord" "HOL-Library.List_Lexorder"
    "HOL-Library.Log_Nat"
begin

section \<open>JavaScript values used by the data selector\<close>

text \<open>
  A JavaScript \<open>Date\<close> holds a time value: a whole number of milliseconds since the epoch,
  or \<open>NaN\<close> (an Invalid Date), here \<open>None\<close>. A number is a double: a finite one is
  modelled by the rational it denotes, \<open>NaN\<close> by \<open>None\<close>. The sums and products of times
  are exact, as they are in doubles on whole seconds and milliseconds; the quotient and the
  product that round a bound of the y axis are rounded as doubles are (\<open>roundDouble\<close>
  below).
\<close>

type_synonym jsdate = "int option"
type_synonym jsnum = "rat option"

datatype error = TypeError | RangeError

text \<open>\<open>toInteger\<close> is ToIntegerOrInfinity: rounding toward zero.\<close>

definition toInteger :: "rat \<Rightarrow> int" where
  "toInteger x = (if 0 \<le> x then \<lfloor>x\<rfloor> else \<lceil>x\<rceil>)"

text \<open>\<open>new Date(v)\<close> for a number \<open>v\<close>: TimeClip, which rejects what lies beyond
  8.64e15 ms and drops the fraction of a millisecond.\<close>

definition newDate :: "rat \<Rightarrow> jsdate" where
  "newDate v = (if \<bar>v\<bar> > 8640000000000000 then None else Some (toInteger v))"

subsection \<open>\<open>Date.prototype.toISOString\<close>\<close>

definition digit :: "int \<Rightarrow> char" where
  "digit k = ''0123456789'' ! nat (k mod 10)"

definition pad2 :: "int \<Rightarrow> string" where
  "pad2 n = [digit (n div 10), digit n]"

definition pad3 :: "int \<Rightarrow> string" where
  "pad3 n = [digit (n div 100), digit (n div 10), digit n]"

definition pad4 :: "int \<Rightarrow> string" where
  "pad4 n = [digit (n div 1000), digit (n div 100), digit (n div 10), digit n]"

definition pad6 :: "int \<Rightarrow> string" where
  "pad6 n = [digit (n div 100000), digit (n div 10000), digit (n div 1000),
             digit (n div 100), digit (n div 10), digit n]"

text \<open>The proleptic Gregorian date (year, month, day of month) of a day number counted
  from 1970-01-01.\<close>

definition civil :: "int \<Rightarrow> int \<times> int \<times> int" where
  "civil days =
     (let z = days + 719468;
          era = z div 146097;
          doe = z mod 146097;
          yoe = (doe - doe div 1460 + doe div 36524 - doe div 146096) div 365;
          doy = doe - (365 * yoe + yoe div 4 - yoe div 100);
          mp = (5 * doy + 2) div 153;
          d = doy - (153 * mp + 2) div 5 + 1;
          m = (if mp < 10 then mp + 3 else mp - 9);
          y = yoe + era * 400 + (if m \<le> 2 then 1 else 0)
      in (y, m, d))"

definition yearString :: "int \<Rightarrow> string" where
  "yearString y =
     (if 0 \<le> y \<and> y \<le> 9999 then pad4 y
      else if y < 0 then CHR ''-'' # pad6 (- y) else CHR ''+'' # pad6 y)"

definition toISOString :: "jsdate \<Rightarrow> error + string" where
  "toISOString date =
     (case date of
        None \<Rightarrow> Inl RangeError
      | Some t \<Rightarrow>
          (let (y, m, d) = civil (t div 86400000);
               ms = t mod 86400000
           in Inr (yearString y @ ''-'' @ pad2 m @ ''-'' @ pad2 d @ ''T''
                   @ pad2 (ms div 3600000) @ '':'' @ pad2 (ms div 60000 mod 60) @ '':''
                   @ pad2 (ms div 1000 mod 60) @ ''.'' @ pad3 (ms mod 1000) @ ''Z'')))"

text \<open>\<open>str.replace('T', " ")\<close> replaces the first occurrence only; \<open>str.slice(0, -8)\<close>
  drops the last eight characters.\<close>

fun replaceT :: "string \<Rightarrow> string" where
  "replaceT [] = []"
| "replaceT (c # cs) = (if c = CHR ''T'' then CHR '' '' # cs else c # replaceT cs)"

definition slice0m8 :: "string \<Rightarrow> string" where
  "slice0m8 s = take (length s - 8) s"

text \<open>The salt is the value of the configured extra field of the data point, \<open>None\<close> when
  the field is missing; an empty string is falsy.\<close>

definition formatISODate :: "jsdate \<Rightarrow> string option \<Rightarrow> error + string" where
  "formatISODate date salt =
     (case toISOString date of
        Inl e \<Rightarrow> Inl e
      | Inr str \<Rightarrow>
          (if salt \<noteq> None \<and> salt \<noteq> Some []
           then Inr (slice0m8 (replaceT str) @ '' '' @ the salt)
           else Inr (slice0m8 (replaceT str))))"


section \<open>Sets and maps in insertion order\<close>

text \<open>
  A JavaScript \<open>Set\<close> is the list of its members in insertion order, without repetition;
  a \<open>Map\<close> is the list of its entries in insertion order, with \<open>AList.update\<close> for
  \<open>set\<close> (an existing key keeps its place, a new one goes last), \<open>map_of\<close> for \<open>get\<close>
  and \<open>AList.delete\<close> for \<open>delete\<close>.
\<close>

definition set_add :: "'a \<Rightarrow> 'a list \<Rightarrow> 'a list" where
  "set_add x xs = (if x \<in> set xs then xs else xs @ [x])"

definition set_delete :: "'a \<Rightarrow> 'a list \<Rightarrow> 'a list" where
  "set_delete x xs = removeAll x xs"

section \<open>The fixed-axis variant: \<open>PlotForDataSelector\<close> and \<open>UIforSelector\<close>\<close>

record 'd datum =
  date :: 'd
  val :: rat
  salt :: "string option"

record axis_limits =
  xMin :: jsdate
  xMax :: jsdate
  yMin :: jsnum
  yMax :: jsnum

text \<open>
  \<open>selectedDates\<close> is a reference: \<open>undefined\<close>, a set of its own (the \<open>new Set()\<close> of
  \<open>initVars\<close>), or the very set object stored in \<open>selectionsByCompound\<close> under a
  compound, to which \<open>render\<close> aliases it. The sets of \<open>selectionsByCompound\<close> are
  replaced only by \<open>initVars\<close>, which assigns \<open>selectedDates\<close> anew.
\<close>

datatype sel_ref = Undefined | Detached "string list" | SetOf string

record plot =
  selectionsByCompound :: "(string \<times> string list) list"
  selectionsByDate :: "(string \<times> string list) list"
  previousCompound :: "string option"
  selectedDates :: sel_ref
  zoomHistory :: "axis_limits list"
  limits :: "axis_limits option"
  yRound :: rat
  xZoomLimit :: rat
  UTCoffset :: rat
  compounds :: "string list"
  selector_value :: string

text \<open>The set \<open>selectedDates\<close> refers to, and the write through that reference.\<close>

definition deref :: "plot \<Rightarrow> string list option" where
  "deref s =
     (case selectedDates s of
        Undefined \<Rightarrow> None
      | Detached ds \<Rightarrow> Some ds
      | SetOf c \<Rightarrow> map_of (selectionsByCompound s) c)"

definition assign :: "string list \<Rightarrow> plot \<Rightarrow> plot" where
  "assign ds s =
     (case selectedDates s of
        Undefined \<Rightarrow> s
      | Detached _ \<Rightarrow> s\<lparr>selectedDates := Detached ds\<rparr>
      | SetOf c \<Rightarrow> s\<lparr>selectionsByCompound := AList.update c ds (selectionsByCompound s)\<rparr>)"

subsection \<open>\<open>commitSelections\<close>\<close>

text \<open>One turn of the loop of \<open>commitSelections\<close>, for the date-key \<open>d\<close>.\<close>

definition commit_one :: "string \<Rightarrow> string \<Rightarrow> plot \<Rightarrow> plot" where
  "commit_one compound d s =
     (let byDate = (case map_of (selectionsByDate s) d of
                      None \<Rightarrow> AList.update d [] (selectionsByDate s)
                    | Some _ \<Rightarrow> selectionsByDate s);
          dateSet = the (map_of byDate d);
          compoundSet = the (map_of (selectionsByCompound s) compound)
      in s\<lparr>selectionsByDate := AList.update d (set_add compound dateSet) byDate,
            selectionsByCompound :=
              AList.update compound (set_add d compoundSet) (selectionsByCompound s)\<rparr>)"

fun commit_loop :: "string \<Rightarrow> string list \<Rightarrow> plot \<Rightarrow> plot" where
  "commit_loop compound [] s = s"
| "commit_loop compound (d # ds) s = commit_loop compound ds (commit_one compound d s)"

text \<open>
  \<open>for (let d of undefined)\<close> throws a TypeError, and so do \<open>compoundSet.add\<close> and the
  \<open>Array.from(compoundSet)\<close> of \<open>updateTextBoxes\<close> when the compound has no set. The state
  an exception leaves behind is not tracked. The loop runs over the members the set had when
  it started: the only set it grows is \<open>compoundSet\<close>, by members the iterated set has.
\<close>

definition commitSelections :: "string option \<Rightarrow> plot \<Rightarrow> error + plot" where
  "commitSelections compound s =
     (case deref s of
        None \<Rightarrow> Inl TypeError
      | Some ds \<Rightarrow>
          (case compound of
             None \<Rightarrow> Inl TypeError
           | Some c \<Rightarrow>
               (case map_of (selectionsByCompound s) c of
                  None \<Rightarrow> Inl TypeError
                | Some _ \<Rightarrow> Inr (commit_loop c ds s))))"

subsection \<open>\<open>updateClicked\<close>\<close>

definition updateClicked :: "jsdate datum \<Rightarrow> bool \<Rightarrow> plot \<Rightarrow> error + plot" where
  "updateClicked item removeOnDupe s =
     (case formatISODate (date item) (salt item) of
        Inl e \<Rightarrow> Inl e
      | Inr selectedDate \<Rightarrow>
          (case deref s of
             None \<Rightarrow> Inl TypeError
           | Some ds \<Rightarrow>
               if selectedDate \<in> set ds \<and> removeOnDupe then
                 (let s1 = assign (set_delete selectedDate ds) s in
                  case map_of (selectionsByDate s1) selectedDate of
                    None \<Rightarrow> Inl TypeError
                  | Some dateSet \<Rightarrow>
                      (let dateSet' = (case previousCompound s1 of
                                         None \<Rightarrow> dateSet
                                       | Some c \<Rightarrow> set_delete c dateSet);
                           s2 = s1\<lparr>selectionsByDate :=
                                      AList.update selectedDate dateSet' (selectionsByDate s1)\<rparr>;
                           s3 = (if length dateSet' = 0
                                 then s2\<lparr>selectionsByDate :=
                                            AList.delete selectedDate (selectionsByDate s2)\<rparr>
                                 else s2)
                       in commitSelections (previousCompound s3) s3))
               else commitSelections (previousCompound s) (assign (set_add selectedDate ds) s)))"


subsection \<open>\<open>createScales\<close>\<close>

text \<open>
  \<open>d3.min\<close> and \<open>d3.max\<close> skip \<open>NaN\<close> and return \<open>undefined\<close> when nothing is left.
\<close>

fun d3min :: "('a::linorder) option list \<Rightarrow> 'a option" where
  "d3min [] = None"
| "d3min (None # xs) = d3min xs"
| "d3min (Some x # xs) = (case d3min xs of None \<Rightarrow> Some x | Some m \<Rightarrow> Some (min x m))"

fun d3max :: "('a::linorder) option list \<Rightarrow> 'a option" where
  "d3max [] = None"
| "d3max (None # xs) = d3max xs"
| "d3max (Some x # xs) = (case d3max xs of None \<Rightarrow> Some x | Some m \<Rightarrow> Some (max x m))"

text \<open>
  The limits handed to \<open>createScales\<close>: \<open>null\<close>, or a \<open>Date\<close> for the x axis and a
  number for the y axis. The strings of the four input elements, which the listener of
  their \<open>change\<close> event passes on, are not modelled.
\<close>

datatype xarg = XNull | XDate jsdate
datatype yarg = YNull | YNum jsnum

text \<open>\<open>!y\<close>: \<open>null\<close>, \<open>NaN\<close> and \<open>0\<close> are falsy. A \<open>Date\<close> is an object, hence truthy.\<close>

fun falsy :: "yarg \<Rightarrow> bool" where
  "falsy YNull = True"
| "falsy (YNum None) = True"
| "falsy (YNum (Some v)) = (v = 0)"

fun number :: "yarg \<Rightarrow> jsnum" where
  "number YNull = None"
| "number (YNum n) = n"

text \<open>
  The result of a division or of a product of doubles is the exact result rounded to the
  nearest double, ties to even: to 53 significant bits, or to a multiple of \<open>2^-1074\<close> when
  it is below \<open>2^-1022\<close>. \<open>exponent x\<close> is the \<open>e\<close> with \<open>2^e \<le> |x| < 2^(e+1)\<close>. The model
  has no \<open>Infinity\<close>: \<open>roundDouble\<close> is this rounding with no largest exponent, which is
  the double as long as it stays below \<open>2^1024\<close> in absolute value.
\<close>

definition exponent :: "rat \<Rightarrow> int" where
  "exponent x =
     (let (p, q) = quotient_of \<bar>x\<bar>; d = bitlen p - bitlen q
      in if 2 powi d \<le> \<bar>x\<bar> then d else d - 1)"

definition roundEven :: "rat \<Rightarrow> int" where
  "roundEven y =
     (let n = \<lfloor>y\<rfloor>; f = y - of_int n
      in if f < 1 / 2 then n else if 1 / 2 < f then n + 1 else if even n then n else n + 1)"

definition roundDouble :: "rat \<Rightarrow> rat" where
  "roundDouble x =
     (if x = 0 then 0
      else (let u = 2 powi (max (exponent x) (- 1022) - 52)
            in of_int (roundEven (x / u)) * u))"

text \<open>\<open>Math.ceil(m / r) * r\<close>: the quotient is rounded, \<open>Math.ceil\<close> is exact, the product is
  rounded. With \<open>r = 0\<close> the quotient is infinite or \<open>NaN\<close> and the product is \<open>NaN\<close>.\<close>

definition ceilTo :: "jsnum \<Rightarrow> rat \<Rightarrow> jsnum" where
  "ceilTo m r =
     (case m of
        None \<Rightarrow> None
      | Some v \<Rightarrow>
          if r = 0 then None
          else Some (roundDouble (of_int \<lceil>roundDouble (v / r)\<rceil> * r)))"

text \<open>The scale objects of d3 that \<open>createScales\<close> also returns are not modelled; the two
  calls of \<open>toISOString\<close> that fill the input elements throw on an Invalid Date.\<close>

definition createScales ::
  "plot \<Rightarrow> jsdate datum list \<Rightarrow> xarg \<Rightarrow> xarg \<Rightarrow> yarg \<Rightarrow> yarg \<Rightarrow> error + axis_limits" where
  "createScales s data xMin0 xMax0 yMin0 yMax0 =
     (let xMin1 = (case xMin0 of XNull \<Rightarrow> d3min (map date data) | XDate d \<Rightarrow> d);
          xMax1 = (case xMax0 of XNull \<Rightarrow> d3max (map date data) | XDate d \<Rightarrow> d)
      in if xMin1 = None \<or> xMax1 = None then Inl RangeError
         else
           (let yMax1 = (if falsy yMax0
                         then ceilTo (d3max (map (\<lambda>d. Some (val d)) data)) (yRound s)
                         else number yMax0);
                yMin1 = (if falsy yMin0 then Some 0 else number yMin0)
            in Inr \<lparr>xMin = xMin1, xMax = xMax1, yMin = yMin1, yMax = yMax1\<rparr>))"

subsection \<open>\<open>render\<close>\<close>

text \<open>Comparison of time values and numbers; any comparison with \<open>NaN\<close> is false.\<close>

fun js_le :: "('a::linorder) option \<Rightarrow> 'a option \<Rightarrow> bool" where
  "js_le (Some a) (Some b) = (a \<le> b)"
| "js_le _ _ = False"

fun js_lt :: "('a::linorder) option \<Rightarrow> 'a option \<Rightarrow> bool" where
  "js_lt (Some a) (Some b) = (a < b)"
| "js_lt _ _ = False"

definition convert :: "rat \<Rightarrow> rat datum \<Rightarrow> jsdate datum" where
  "convert off d =
     \<lparr>date = newDate ((date d + (60 * 60 * off)) * 1000), val = val d, salt = salt d\<rparr>"

definition inside :: "axis_limits \<Rightarrow> jsdate datum \<Rightarrow> bool" where
  "inside lms d \<longleftrightarrow>
     js_le (xMin lms) (date d) \<and> js_le (date d) (xMax lms)
     \<and> js_le (yMin lms) (Some (val d)) \<and> js_le (Some (val d)) (yMax lms)"

text \<open>The synchronous part of \<open>render\<close>: the aliasing of \<open>selectedDates\<close>, and
  \<open>updateTextBoxes\<close>, whose \<open>Array.from(undefined)\<close> throws.\<close>

definition render_sync :: "string option \<Rightarrow> plot \<Rightarrow> error + plot" where
  "render_sync compound s =
     (case compound of
        None \<Rightarrow> Inl TypeError
      | Some c \<Rightarrow>
          (case map_of (selectionsByCompound s) c of
             None \<Rightarrow> Inl TypeError
           | Some _ \<Rightarrow> Inr (s\<lparr>selectedDates := SetOf c\<rparr>)))"

fun click_all :: "jsdate datum list \<Rightarrow> plot \<Rightarrow> error + plot" where
  "click_all [] s = Inr s"
| "click_all (p # ps) s =
     (case updateClicked p False s of Inl e \<Rightarrow> Inl e | Inr s' \<Rightarrow> click_all ps s')"

definition has_key :: "string list \<Rightarrow> jsdate datum \<Rightarrow> bool" where
  "has_key ds d =
     (case formatISODate (date d) (salt d) of Inl _ \<Rightarrow> False | Inr k \<Rightarrow> k \<in> set ds)"

text \<open>
  The callback that runs when the fetch of the compound's file resolves with \<open>data\<close>. The
  points drawn are those inside the limits (their dates are valid, so that
  \<open>formatISODate\<close> does not throw on them); those selected are clicked again.
\<close>

definition render_then ::
  "rat datum list \<Rightarrow> xarg \<Rightarrow> xarg \<Rightarrow> yarg \<Rightarrow> yarg \<Rightarrow> plot \<Rightarrow> error + plot" where
  "render_then data0 xMin0 xMax0 yMin0 yMax0 s =
     (let data = map (convert (UTCoffset s)) data0 in
      case createScales s data xMin0 xMax0 yMin0 yMax0 of
        Inl e \<Rightarrow> Inl e
      | Inr lms \<Rightarrow>
          (let s1 = s\<lparr>limits := Some lms\<rparr>;
               shown = filter (inside lms) data
           in case deref s1 of
                None \<Rightarrow> if shown = [] then Inr s1 else Inl TypeError
              | Some ds \<Rightarrow> click_all (filter (has_key ds) shown) s1))"

text \<open>
  \<open>fetch\<close> is what \<open>d3.json\<close> resolves with for each compound, \<open>None\<close> when it rejects and
  the callback never runs. In \<open>render\<close> the callback follows the synchronous part at once:
  no other event comes between the request and its answer.
\<close>

definition fetched ::
  "(string \<Rightarrow> rat datum list option) \<Rightarrow> string option \<Rightarrow> xarg \<Rightarrow> xarg \<Rightarrow> yarg \<Rightarrow> yarg
     \<Rightarrow> plot \<Rightarrow> error + plot" where
  "fetched fetch compound xMin0 xMax0 yMin0 yMax0 s =
     (case compound of
        None \<Rightarrow> Inr s
      | Some c \<Rightarrow>
          (case fetch c of
             None \<Rightarrow> Inr s
           | Some data \<Rightarrow> render_then data xMin0 xMax0 yMin0 yMax0 s))"

definition render ::
  "(string \<Rightarrow> rat datum list option) \<Rightarrow> string option \<Rightarrow> xarg \<Rightarrow> xarg \<Rightarrow> yarg \<Rightarrow> yarg
     \<Rightarrow> plot \<Rightarrow> error + plot" where
  "render fetch compound xMin0 xMax0 yMin0 yMax0 s =
     (case render_sync compound s of
        Inl e \<Rightarrow> Inl e
      | Inr s1 \<Rightarrow> fetched fetch compound xMin0 xMax0 yMin0 yMax0 s1)"

definition updateAxes ::
  "(string \<Rightarrow> rat datum list option) \<Rightarrow> xarg \<Rightarrow> xarg \<Rightarrow> yarg \<Rightarrow> yarg \<Rightarrow> plot \<Rightarrow> error + plot" where
  "updateAxes fetch xMin0 xMax0 yMin0 yMax0 s =
     (case commitSelections (Some (selector_value s)) s of
        Inl e \<Rightarrow> Inl e
      | Inr s1 \<Rightarrow> render fetch (Some (selector_value s1)) xMin0 xMax0 yMin0 yMax0 s1)"

subsection \<open>\<open>cleanPlot\<close>\<close>

definition clean_one :: "string \<Rightarrow> string \<Rightarrow> plot \<Rightarrow> plot" where
  "clean_one compound d s =
     (case map_of (selectionsByDate s) d of
        None \<Rightarrow> s
      | Some dateSet \<Rightarrow>
          (let dateSet' = set_delete compound dateSet;
               byDate = AList.update d dateSet' (selectionsByDate s)
           in s\<lparr>selectionsByDate :=
                   (if length dateSet' = 0 then AList.delete d byDate else byDate)\<rparr>))"

fun clean_loop :: "string \<Rightarrow> string list \<Rightarrow> plot \<Rightarrow> plot" where
  "clean_loop compound [] s = s"
| "clean_loop compound (d # ds) s = clean_loop compound ds (clean_one compound d s)"

definition cleanPlot ::
  "(string \<Rightarrow> rat datum list option) \<Rightarrow> string \<Rightarrow> plot \<Rightarrow> error + plot" where
  "cleanPlot fetch compound s =
     (case map_of (selectionsByCompound s) compound of
        None \<Rightarrow> Inl TypeError
      | Some compoundSet \<Rightarrow>
          (let s1 = clean_loop compound compoundSet s;
               s2 = s1\<lparr>selectionsByCompound :=
                         AList.update compound [] (selectionsByCompound s1)\<rparr>
           in render fetch (Some compound) XNull XNull YNull YNull s2))"

subsection \<open>Observations on the selection state\<close>

text \<open>What is left of an entry of \<open>selectionsByDate\<close> once the compound \<open>c\<close> is taken out
  of it: an entry that becomes empty is deleted.\<close>

definition pruned :: "string \<Rightarrow> string list option \<Rightarrow> string list option" where
  "pruned c e =
     (case e of
        None \<Rightarrow> None
      | Some cs \<Rightarrow> if set_delete c cs = [] then None else Some (set_delete c cs))"

text \<open>The compound \<open>c\<close> is current, \<open>selectedDates\<close> is its set, and every date-key of the
  set has an entry in \<open>selectionsByDate\<close>.\<close>

definition ledgered :: "string \<Rightarrow> plot \<Rightarrow> bool" where
  "ledgered c s \<longleftrightarrow>
     selectedDates s = SetOf c \<and> previousCompound s = Some c
     \<and> (\<exists>ds. map_of (selectionsByCompound s) c = Some ds
           \<and> (\<forall>d \<in> set ds. \<exists>cs. map_of (selectionsByDate s) d = Some cs))"

text \<open>A run of calls of \<open>updateClicked\<close>, each with its data point and its flag.\<close>

fun clicks :: "(jsdate datum \<times> bool) list \<Rightarrow> plot \<Rightarrow> error + plot" where
  "clicks [] s = Inr s"
| "clicks ((item, removeOnDupe) # evs) s =
     (case updateClicked item removeOnDupe s of Inl e \<Rightarrow> Inl e | Inr s' \<Rightarrow> clicks evs s')"

subsection \<open>Example states\<close>

definition ex_start :: plot where
  "ex_start =
     \<lparr>selectionsByCompound = [(''ethane'', [''2020-01-01 00:00'']), (''propane'', [])],
      selectionsByDate = [], previousCompound = Some ''ethane'',
      selectedDates = SetOf ''ethane'', zoomHistory = [], limits = None,
      yRound = 50, xZoomLimit = 2678400000, UTCoffset = - 2,
      compounds = [''ethane'', ''propane''], selector_value = ''ethane''\<rparr>"

definition ex_one :: plot where
  "ex_one = ex_start\<lparr>selectionsByDate := [(''2020-01-01 00:00'', [''ethane''])]\<rparr>"

definition ex_two :: plot where
  "ex_two =
     ex_start\<lparr>selectionsByCompound :=
                 [(''ethane'', [''2020-01-01 00:00'']), (''propane'', [''2020-01-01 00:00''])],
               selectionsByDate := [(''2020-01-01 00:00'', [''ethane'', ''propane''])]\<rparr>"

definition ex_limits :: axis_limits where
  "ex_limits =
     \<lparr>xMin = Some 1577836800000, xMax = Some 1580601600000, yMin = Some 0, yMax = Some 50\<rparr>"

definition ex_three :: plot where
  "ex_three =
     ex_start\<lparr>selectionsByCompound := [(''ethane'', []), (''propane'', [''2020-01-01 00:00''])],
               selectionsByDate := [(''2020-01-01 00:00'', [''propane''])],
               limits := Some ex_limits\<rparr>"

text \<open>Two points of every compound's file: 2020-01-01 02:00 and 2020-02-02 02:00 in the
  file's clock, which runs two hours ahead of UTC.\<close>

definition ex_fetch :: "string \<Rightarrow> rat datum list option" where
  "ex_fetch c =
     Some [\<lparr>date = 1577844000, val = 37, salt = None\<rparr>,
           \<lparr>date = 1580608800, val = 12, salt = None\<rparr>]"

definition ex_item :: "jsdate datum" where
  "ex_item = \<lparr>date = Some 1580601600000, val = 12, salt = None\<rparr>"

subsection \<open>\<open>getJSONfile\<close>\<close>

text \<open>
  \<open>Array.prototype.sort\<close> without a comparison function orders the elements by their
  string conversions. An element of \<open>[...selectionsByDate.entries()]\<close> is the array of a
  key and a \<open>Set\<close>, whose string conversion is the key, a comma, and \<open>[object Set]\<close>. The
  sort is stable. Strings are compared by code units; the model's characters are bytes, which
  is the same order on ASCII.
\<close>

definition entryString :: "string \<times> string list \<Rightarrow> string" where
  "entryString e = fst e @ '','' @ ''[object Set]''"

definition sortEntries :: "(string \<times> string list) list \<Rightarrow> (string \<times> string list) list" where
  "sortEntries es = sort_key entryString es"

text \<open>
  \<open>Object.fromEntries\<close> makes an object whose own properties \<open>JSON.stringify\<close> visits in
  the order of OrdinaryOwnPropertyKeys: first the keys that are array indices (canonical
  decimal numerals below \<open>2^32 - 1\<close>) in ascending numeric order, then the other keys in
  the order of their creation.
\<close>

definition isDigit :: "char \<Rightarrow> bool" where
  "isDigit c \<longleftrightarrow> c \<in> set ''0123456789''"

definition digitValue :: "char \<Rightarrow> int" where
  "digitValue c =
     (case map_of (zip ''0123456789'' [0, 1, 2, 3, 4, 5, 6, 7, 8, 9]) c of
        None \<Rightarrow> 0
      | Some v \<Rightarrow> v)"

fun numeral_value :: "string \<Rightarrow> int \<Rightarrow> int" where
  "numeral_value [] acc = acc"
| "numeral_value (c # cs) acc = numeral_value cs (10 * acc + digitValue c)"

definition isArrayIndex :: "string \<Rightarrow> bool" where
  "isArrayIndex k =
     (if k = [] \<or> 10 < length k \<or> \<not> list_all isDigit k then False
      else if k \<noteq> ''0'' \<and> hd k = CHR ''0'' then False
      else numeral_value k 0 < 4294967295)"

definition fromEntries :: "(string \<times> 'v) list \<Rightarrow> (string \<times> 'v) list" where
  "fromEntries es =
     sort_key (\<lambda>e. numeral_value (fst e) 0) (filter (\<lambda>e. isArrayIndex (fst e)) es)
     @ filter (\<lambda>e. \<not> isArrayIndex (fst e)) es"

text \<open>\<open>mapReplacer\<close> turns a \<open>Set\<close> into the array of its members, in insertion order.\<close>

definition mapReplacer :: "string list \<Rightarrow> string list" where
  "mapReplacer v = v"

text \<open>
  The content of the file, as the properties \<open>JSON.stringify\<close> writes, in its order, each
  with the array \<open>mapReplacer\<close> returns for it. The layout of the text (quoting, indentation,
  the line break put after each \<open>],\<close>) and the download are not modelled.
\<close>

definition getJSONfile :: "plot \<Rightarrow> error + plot \<times> (string \<times> string list) list" where
  "getJSONfile s =
     (case commitSelections (Some (selector_value s)) s of
        Inl e \<Rightarrow> Inl e
      | Inr s1 \<Rightarrow>
          Inr (s1, map (\<lambda>e. (fst e, mapReplacer (snd e)))
                     (fromEntries (sortEntries (selectionsByDate s1)))))"

text \<open>A ledger with the two dates of the exported example, and one with a salted and an
  unsalted key of the same minute.\<close>

definition ex_ledger :: plot where
  "ex_ledger =
     ex_start\<lparr>selectionsByCompound :=
                 [(''ethane'', [''2020-02-02 00:00'']), (''propane'', [''2020-01-01 00:00''])],
               selectionsByDate := [(''2020-02-02 00:00'', [''ethane'']),
                                    (''2020-01-01 00:00'', [''propane''])]\<rparr>"

definition ex_salted :: plot where
  "ex_salted =
     ex_start\<lparr>selectionsByCompound :=
                 [(''ethane'', [''2020-01-01 00:00'', ''2020-01-01 00:00 5'']), (''propane'', [])],
               selectionsByDate := [(''2020-01-01 00:00'', [''ethane'']),
                                    (''2020-01-01 00:00 5'', [''ethane''])]\<rparr>"

definition ex_epoch :: "rat datum" where
  "ex_epoch = \<lparr>date = 1500000000, val = 0, salt = None\<rparr>"

text \<open>The two points of \<open>ex_fetch\<close> as \<open>render\<close> converts them.\<close>

definition ex_data :: "jsdate datum list" where
  "ex_data = [\<lparr>date = Some 1577836800000, val = 37, salt = None\<rparr>,
              \<lparr>date = Some 1580601600000, val = 12, salt = None\<rparr>]"






subsection \<open>Zooming: \<open>dragEnd\<close> with the shift key, and the undo button\<close>

text \<open>
  The x range of a zoom, from the dates \<open>xStart\<close> and \<open>xEnd\<close> that the inverted x scale
  gives for the left and right edge of the drawn rectangle. This part of \<open>dragEnd\<close> is the
  same text in both variants. A difference or comparison that involves an Invalid Date is
  \<open>NaN\<close> or false.
\<close>

definition zoomX :: "axis_limits \<Rightarrow> rat \<Rightarrow> jsdate \<Rightarrow> jsdate \<Rightarrow> jsdate \<times> jsdate" where
  "zoomX lms zoomLimit xStart xEnd =
     (if js_lt xStart (xMin lms) \<or> js_lt (xMax lms) xEnd then (xMin lms, xMax lms)
      else
        (case (xStart, xEnd) of
           (Some a, Some b) \<Rightarrow>
             if of_int (b - a) < zoomLimit then
               (let xAvg = (of_int b + of_int a) / 2
                in (newDate (xAvg - zoomLimit / 2), newDate (xAvg + zoomLimit / 2)))
             else (xStart, xEnd)
         | _ \<Rightarrow> (xStart, xEnd)))"

text \<open>
  \<open>dragEnd\<close> with the shift key held. \<open>xStart\<close>, \<open>xEnd\<close>, \<open>yStart\<close> and \<open>yEnd\<close> are what the
  inverted scales of d3 return for the edges of the rectangle (the y values already
  swapped). Before the first render has set \<open>limits\<close> and the scales, the handler throws.
\<close>

definition dragEnd ::
  "(string \<Rightarrow> rat datum list option) \<Rightarrow> jsdate \<Rightarrow> jsdate \<Rightarrow> jsnum \<Rightarrow> jsnum \<Rightarrow> plot \<Rightarrow> error + plot" where
  "dragEnd fetch xStart xEnd yStart yEnd s =
     (case limits s of
        None \<Rightarrow> Inl TypeError
      | Some lms \<Rightarrow>
          (let (xStart', xEnd') = zoomX lms (xZoomLimit s) xStart xEnd;
               s1 = s\<lparr>zoomHistory := zoomHistory s @ [lms]\<rparr>
           in updateAxes fetch (XDate xStart') (XDate xEnd') (YNum yStart) (YNum yEnd) s1))"

text \<open>The listener of the undo button: \<open>pop\<close> returns \<open>undefined\<close> on an empty array, and
  then nothing happens.\<close>

definition undoZoom :: "(string \<Rightarrow> rat datum list option) \<Rightarrow> plot \<Rightarrow> error + plot" where
  "undoZoom fetch s =
     (if zoomHistory s = [] then Inr s
      else
        (let oldLimits = last (zoomHistory s);
             s1 = s\<lparr>zoomHistory := butlast (zoomHistory s)\<rparr>
         in updateAxes fetch (XDate (xMin oldLimits)) (XDate (xMax oldLimits))
              (YNum (yMin oldLimits)) (YNum (yMax oldLimits)) s1))"

subsection \<open>\<open>initVars\<close>, the compound selector and \<open>totalRefresh\<close>\<close>

text \<open>
  \<open>compounds[0]\<close> is \<open>undefined\<close> for an empty array. The browser selects the first option
  of the select element that \<open>initVars\<close> fills anew; its value is the empty string when
  there is no option.
\<close>

definition first_compound :: "plot \<Rightarrow> string option" where
  "first_compound s = (case compounds s of [] \<Rightarrow> None | c # _ \<Rightarrow> Some c)"

definition option_value :: "string option \<Rightarrow> string" where
  "option_value c = (case c of None \<Rightarrow> [] | Some v \<Rightarrow> v)"

text \<open>The synchronous part of \<open>initVars\<close>, up to the request \<open>render\<close> sends.\<close>

definition initVars_sync :: "plot \<Rightarrow> error + plot" where
  "initVars_sync s =
     (let s1 = s\<lparr>selector_value := option_value (first_compound s),
                  selectionsByCompound :=
                    fold (\<lambda>c m. AList.update c [] m) (compounds s) (selectionsByCompound s),
                  selectionsByDate := [],
                  selectedDates := Detached [],
                  previousCompound := first_compound s\<rparr>
      in render_sync (previousCompound s1) s1)"

definition initVars :: "(string \<Rightarrow> rat datum list option) \<Rightarrow> plot \<Rightarrow> error + plot" where
  "initVars fetch s =
     (case initVars_sync s of
        Inl e \<Rightarrow> Inl e
      | Inr s1 \<Rightarrow> fetched fetch (previousCompound s1) XNull XNull YNull YNull s1)"

text \<open>The listener of the \<open>change\<close> event of the compound selector, up to the request its
  \<open>render\<close> sends, and with the callback.\<close>

definition selectorChange_sync :: "plot \<Rightarrow> error + plot" where
  "selectorChange_sync s =
     (case commitSelections (previousCompound s) s of
        Inl e \<Rightarrow> Inl e
      | Inr s1 \<Rightarrow>
          (let compound = selector_value s1 in
           case render_sync (Some compound) s1 of
             Inl e \<Rightarrow> Inl e
           | Inr s2 \<Rightarrow> Inr (s2\<lparr>previousCompound := Some compound\<rparr>)))"

definition selectorChange ::
  "(string \<Rightarrow> rat datum list option) \<Rightarrow> string \<Rightarrow> plot \<Rightarrow> error + plot" where
  "selectorChange fetch compound s =
     (case selectorChange_sync (s\<lparr>selector_value := compound\<rparr>) of
        Inl e \<Rightarrow> Inl e
      | Inr s1 \<Rightarrow> fetched fetch (Some compound) XNull XNull YNull YNull s1)"

text \<open>
  \<open>totalRefresh\<close>: \<open>initVars\<close>, then the selector set to the first compound and its
  \<open>change\<close> event dispatched, all in one turn; the callbacks of the two requests run
  afterwards, in the order of the requests.
\<close>

definition totalRefresh :: "(string \<Rightarrow> rat datum list option) \<Rightarrow> plot \<Rightarrow> error + plot" where
  "totalRefresh fetch s =
     (case initVars_sync s of
        Inl e \<Rightarrow> Inl e
      | Inr s1 \<Rightarrow>
          (case selectorChange_sync (s1\<lparr>selector_value := option_value (first_compound s1)\<rparr>) of
             Inl e \<Rightarrow> Inl e
           | Inr s2 \<Rightarrow>
               (case fetched fetch (first_compound s2) XNull XNull YNull YNull s2 of
                  Inl e \<Rightarrow> Inl e
                | Inr s3 \<Rightarrow>
                    fetched fetch (Some (selector_value s3)) XNull XNull YNull YNull s3)))"

text \<open>The plot as the constructors leave it, before \<open>initVars\<close>.\<close>

definition constructed :: "string list \<Rightarrow> rat \<Rightarrow> rat \<Rightarrow> rat \<Rightarrow> plot" where
  "constructed cs yAxisRound zoomLimit offset =
     \<lparr>selectionsByCompound = [], selectionsByDate = [], previousCompound = None,
      selectedDates = Undefined, zoomHistory = [], limits = None,
      yRound = yAxisRound, xZoomLimit = zoomLimit, UTCoffset = offset,
      compounds = cs, selector_value = []\<rparr>"

definition ex_plot :: plot where
  "ex_plot = constructed [''ethane'', ''propane''] 50 2678400000 (- 2)"

section \<open>The variable-axis variant: \<open>DataSelector\<close>\<close>

text \<open>
  \<open>DataSelector\<close> is plot and UI in one class. Its fields for the selections, the limits and
  the configuration, and its methods \<open>commitSelections\<close>, \<open>updateClicked\<close> and \<open>cleanPlot\<close>,
  are those of the fixed-axis variant word for word, so the model keeps them in a \<open>plot\<close>
  (field \<open>core\<close>, whose \<open>zoomHistory\<close> and \<open>yRound\<close> this variant does not use) and adds
  what is new: the zoom history as a \<open>Map\<close> from compound to a \<open>Map\<close> from the joined names
  of the x and y attribute to an array of limits, the names of the x and y options, and the
  accessors in use. An accessor is one of the options and is identified by the option's
  name, which is what \<open>reverseKeyLookup\<close> finds for it. \<open>globalXDefault\<close> is the global
  \<open>dataXDefault\<close> of the configuration, which the filter in \<open>render\<close> calls.
\<close>

record selector =
  core :: plot
  zoomHistoryMap :: "(string \<times> (string \<times> axis_limits list) list) list"
  xOptions :: "string list"
  yOptions :: "string list"
  dataXDefault :: string
  dataYDefault :: string
  globalXDefault :: string

text \<open>A data point gives, for the name of each option, what the accessor of the option
  returns on it: epoch seconds, then dates, for the x options, and numbers for the y
  options; a missing field is \<open>undefined\<close>.\<close>

record 'd vdatum =
  xfields :: "(string \<times> 'd) list"
  yfields :: "(string \<times> rat) list"

definition joinXYStrings :: "string \<Rightarrow> string \<Rightarrow> string" where
  "joinXYStrings x y = ''x'' @ x @ ''_y'' @ y"

definition xattr :: "string \<Rightarrow> jsdate vdatum \<Rightarrow> jsdate" where
  "xattr k d = (case map_of (xfields d) k of None \<Rightarrow> None | Some t \<Rightarrow> t)"

definition yattr :: "string \<Rightarrow> jsdate vdatum \<Rightarrow> jsnum" where
  "yattr k d = map_of (yfields d) k"

text \<open>\<open>render\<close> replaces the field named by each x option by a date; a missing field
  becomes an Invalid Date.\<close>

definition vconvert :: "string list \<Rightarrow> rat \<Rightarrow> rat vdatum \<Rightarrow> jsdate vdatum" where
  "vconvert opts off d =
     \<lparr>xfields = map (\<lambda>k. (k, case map_of (xfields d) k of
                                 None \<Rightarrow> None
                               | Some e \<Rightarrow> newDate ((e + (60 * 60 * off)) * 1000))) opts,
      yfields = yfields d\<rparr>"

subsection \<open>\<open>processAxis\<close> and \<open>createScales\<close>\<close>

text \<open>\<open>Math.floor(m / r) * r\<close>, rounded as \<open>ceilTo\<close> is.\<close>

definition floorTo :: "jsnum \<Rightarrow> rat \<Rightarrow> jsnum" where
  "floorTo m r =
     (case m of
        None \<Rightarrow> None
      | Some v \<Rightarrow>
          if r = 0 then None
          else Some (roundDouble (of_int \<lfloor>roundDouble (v / r)\<rfloor> * r)))"

text \<open>\<open>processAxis\<close> with \<open>isDate\<close> true, and with \<open>isDate\<close> false and the default
  \<open>round\<close> of 1, which is how \<open>createScales\<close> calls it.\<close>

definition processAxisX ::
  "jsdate vdatum list \<Rightarrow> string \<Rightarrow> xarg \<Rightarrow> xarg \<Rightarrow> error + jsdate \<times> jsdate" where
  "processAxisX data attr minVal0 maxVal0 =
     (let minVal = (case minVal0 of XNull \<Rightarrow> d3min (map (xattr attr) data) | XDate d \<Rightarrow> d);
          maxVal = (case maxVal0 of XNull \<Rightarrow> d3max (map (xattr attr) data) | XDate d \<Rightarrow> d)
      in if minVal = None \<or> maxVal = None then Inl RangeError else Inr (minVal, maxVal))"

definition processAxisY ::
  "jsdate vdatum list \<Rightarrow> string \<Rightarrow> yarg \<Rightarrow> yarg \<Rightarrow> jsnum \<times> jsnum" where
  "processAxisY data attr minVal0 maxVal0 =
     (let maxVal = (if falsy maxVal0 then ceilTo (d3max (map (yattr attr) data)) 1
                    else number maxVal0);
          minVal = (if falsy minVal0 then floorTo (d3min (map (yattr attr) data)) 1
                    else number minVal0)
      in (minVal, maxVal))"

text \<open>\<open>===\<close> on time values and numbers: \<open>NaN\<close> equals nothing.\<close>

definition js_eq :: "'a option \<Rightarrow> 'a option \<Rightarrow> bool" where
  "js_eq a b \<longleftrightarrow> a \<noteq> None \<and> a = b"

definition areLimitsEqual :: "axis_limits \<Rightarrow> axis_limits \<Rightarrow> bool" where
  "areLimitsEqual lim1 lim2 \<longleftrightarrow>
     js_eq (xMin lim1) (xMin lim2) \<and> js_eq (xMax lim1) (xMax lim2)
     \<and> js_eq (yMin lim1) (yMin lim2) \<and> js_eq (yMax lim1) (yMax lim2)"

text \<open>The stack of the current compound and attribute pair; a missing \<open>Map\<close> or array makes
  \<open>createScales\<close> throw.\<close>

definition limitStack :: "selector \<Rightarrow> axis_limits list option" where
  "limitStack s =
     (case previousCompound (core s) of
        None \<Rightarrow> None
      | Some c \<Rightarrow>
          (case map_of (zoomHistoryMap s) c of
             None \<Rightarrow> None
           | Some sub \<Rightarrow> map_of sub (joinXYStrings (dataXDefault s) (dataYDefault s))))"

definition setLimitStack :: "axis_limits list \<Rightarrow> selector \<Rightarrow> selector" where
  "setLimitStack st s =
     (case previousCompound (core s) of
        None \<Rightarrow> s
      | Some c \<Rightarrow>
          (case map_of (zoomHistoryMap s) c of
             None \<Rightarrow> s
           | Some sub \<Rightarrow>
               s\<lparr>zoomHistoryMap :=
                    AList.update c
                      (AList.update (joinXYStrings (dataXDefault s) (dataYDefault s)) st sub)
                      (zoomHistoryMap s)\<rparr>))"

definition vcreateScales ::
  "selector \<Rightarrow> jsdate vdatum list \<Rightarrow> xarg \<Rightarrow> xarg \<Rightarrow> yarg \<Rightarrow> yarg
     \<Rightarrow> error + selector \<times> axis_limits" where
  "vcreateScales s data xMin0 xMax0 yMin0 yMax0 =
     (case limitStack s of
        None \<Rightarrow> Inl TypeError
      | Some st \<Rightarrow>
          (let peek = (xMin0 = XNull \<or> xMax0 = XNull \<or> yMin0 = YNull \<or> yMax0 = YNull)
                        \<and> length st \<noteq> 0;
               xMin1 = (if peek then XDate (xMin (last st)) else xMin0);
               xMax1 = (if peek then XDate (xMax (last st)) else xMax0);
               yMin1 = (if peek then YNum (yMin (last st)) else yMin0);
               yMax1 = (if peek then YNum (yMax (last st)) else yMax0)
           in case processAxisX data (dataXDefault s) xMin1 xMax1 of
                Inl e \<Rightarrow> Inl e
              | Inr (xMin2, xMax2) \<Rightarrow>
                  (let (yMin2, yMax2) = processAxisY data (dataYDefault s) yMin1 yMax1;
                       lms = \<lparr>xMin = xMin2, xMax = xMax2, yMin = yMin2, yMax = yMax2\<rparr>;
                       st' = (if length st \<noteq> 0
                              then (if \<not> areLimitsEqual lms (last st) then st @ [lms] else st)
                              else st @ [lms])
                   in Inr (setLimitStack st' s, lms))))"

subsection \<open>\<open>render\<close>, \<open>updateAxes\<close>, zoom and undo\<close>

definition vinside :: "selector \<Rightarrow> axis_limits \<Rightarrow> jsdate vdatum \<Rightarrow> bool" where
  "vinside s lms d \<longleftrightarrow>
     js_le (xMin lms) (xattr (globalXDefault s) d) \<and> js_le (xattr (globalXDefault s) d) (xMax lms)
     \<and> js_le (yMin lms) (yattr (dataYDefault s) d) \<and> js_le (yattr (dataYDefault s) d) (yMax lms)"

text \<open>\<open>this.toolTipSalt\<close> is never assigned in \<open>DataSelector\<close>, so no key has a salt. The
  filter of the selected points throws when the date of a drawn point is invalid.\<close>

definition vhas_key :: "selector \<Rightarrow> string list \<Rightarrow> jsdate vdatum \<Rightarrow> error + bool" where
  "vhas_key s ds d =
     (case formatISODate (xattr (dataXDefault s) d) None of
        Inl e \<Rightarrow> Inl e
      | Inr k \<Rightarrow> Inr (k \<in> set ds))"

fun vselected :: "selector \<Rightarrow> string list \<Rightarrow> jsdate vdatum list \<Rightarrow> error + jsdate vdatum list" where
  "vselected s ds [] = Inr []"
| "vselected s ds (d # rest) =
     (case vhas_key s ds d of
        Inl e \<Rightarrow> Inl e
      | Inr b \<Rightarrow>
          (case vselected s ds rest of
             Inl e \<Rightarrow> Inl e
           | Inr ps \<Rightarrow> Inr (if b then d # ps else ps)))"

text \<open>\<open>updateClicked\<close> reads the field \<open>date\<close> of the point, whatever the x attribute is;
  when that field is no x option it is no \<open>Date\<close> and \<open>toISOString\<close> is not a function.\<close>

definition vupdateClicked :: "jsdate vdatum \<Rightarrow> bool \<Rightarrow> selector \<Rightarrow> error + selector" where
  "vupdateClicked item removeOnDupe s =
     (case map_of (xfields item) ''date'' of
        None \<Rightarrow> Inl TypeError
      | Some t \<Rightarrow>
          (case updateClicked \<lparr>date = t, val = 0, salt = None\<rparr> removeOnDupe (core s) of
             Inl e \<Rightarrow> Inl e
           | Inr c \<Rightarrow> Inr (s\<lparr>core := c\<rparr>)))"

fun vclick_all :: "jsdate vdatum list \<Rightarrow> selector \<Rightarrow> error + selector" where
  "vclick_all [] s = Inr s"
| "vclick_all (p # ps) s =
     (case vupdateClicked p False s of Inl e \<Rightarrow> Inl e | Inr s' \<Rightarrow> vclick_all ps s')"

definition vrender_sync :: "string option \<Rightarrow> selector \<Rightarrow> error + selector" where
  "vrender_sync compound s =
     (case render_sync compound (core s) of Inl e \<Rightarrow> Inl e | Inr c \<Rightarrow> Inr (s\<lparr>core := c\<rparr>))"

definition vrender_then ::
  "rat vdatum list \<Rightarrow> xarg \<Rightarrow> xarg \<Rightarrow> yarg \<Rightarrow> yarg \<Rightarrow> selector \<Rightarrow> error + selector" where
  "vrender_then data0 xMin0 xMax0 yMin0 yMax0 s =
     (let data = map (vconvert (xOptions s) (UTCoffset (core s))) data0 in
      case vcreateScales s data xMin0 xMax0 yMin0 yMax0 of
        Inl e \<Rightarrow> Inl e
      | Inr (s0, lms) \<Rightarrow>
          (let s1 = s0\<lparr>core := (core s0)\<lparr>limits := Some lms\<rparr>\<rparr>;
               shown = filter (vinside s1 lms) data
           in case deref (core s1) of
                None \<Rightarrow> if shown = [] then Inr s1 else Inl TypeError
              | Some ds \<Rightarrow>
                  (case vselected s1 ds shown of
                     Inl e \<Rightarrow> Inl e
                   | Inr ps \<Rightarrow> vclick_all ps s1)))"

definition vfetched ::
  "(string \<Rightarrow> rat vdatum list option) \<Rightarrow> string option \<Rightarrow> xarg \<Rightarrow> xarg \<Rightarrow> yarg \<Rightarrow> yarg
     \<Rightarrow> selector \<Rightarrow> error + selector" where
  "vfetched fetch compound xMin0 xMax0 yMin0 yMax0 s =
     (case compound of
        None \<Rightarrow> Inr s
      | Some c \<Rightarrow>
          (case fetch c of
             None \<Rightarrow> Inr s
           | Some data \<Rightarrow> vrender_then data xMin0 xMax0 yMin0 yMax0 s))"

definition vrender ::
  "(string \<Rightarrow> rat vdatum list option) \<Rightarrow> string option \<Rightarrow> xarg \<Rightarrow> xarg \<Rightarrow> yarg \<Rightarrow> yarg
     \<Rightarrow> selector \<Rightarrow> error + selector" where
  "vrender fetch compound xMin0 xMax0 yMin0 yMax0 s =
     (case vrender_sync compound s of
        Inl e \<Rightarrow> Inl e
      | Inr s1 \<Rightarrow> vfetched fetch compound xMin0 xMax0 yMin0 yMax0 s1)"

definition vupdateAxes ::
  "(string \<Rightarrow> rat vdatum list option) \<Rightarrow> xarg \<Rightarrow> xarg \<Rightarrow> yarg \<Rightarrow> yarg
     \<Rightarrow> selector \<Rightarrow> error + selector" where
  "vupdateAxes fetch xMin0 xMax0 yMin0 yMax0 s =
     (case commitSelections (Some (selector_value (core s))) (core s) of
        Inl e \<Rightarrow> Inl e
      | Inr c \<Rightarrow> vrender fetch (Some (selector_value c)) xMin0 xMax0 yMin0 yMax0 (s\<lparr>core := c\<rparr>))"

text \<open>\<open>dragEnd\<close> with the shift key held: it pushes nothing itself.\<close>

definition vdragEnd ::
  "(string \<Rightarrow> rat vdatum list option) \<Rightarrow> jsdate \<Rightarrow> jsdate \<Rightarrow> jsnum \<Rightarrow> jsnum
     \<Rightarrow> selector \<Rightarrow> error + selector" where
  "vdragEnd fetch xStart xEnd yStart yEnd s =
     (case limits (core s) of
        None \<Rightarrow> Inl TypeError
      | Some lms \<Rightarrow>
          (let (xStart', xEnd') = zoomX lms (xZoomLimit (core s)) xStart xEnd
           in vupdateAxes fetch (XDate xStart') (XDate xEnd') (YNum yStart) (YNum yEnd) s))"

text \<open>The listener of the undo button pops the stack of the current compound and attribute
  pair (\<open>pop\<close> on an empty array changes nothing) and calls \<open>updateAxes\<close> without limits.\<close>

definition vundoZoom :: "(string \<Rightarrow> rat vdatum list option) \<Rightarrow> selector \<Rightarrow> error + selector" where
  "vundoZoom fetch s =
     (case limitStack s of
        None \<Rightarrow> Inl TypeError
      | Some st \<Rightarrow> vupdateAxes fetch XNull XNull YNull YNull (setLimitStack (butlast st) s))"

subsection \<open>\<open>initVars\<close> and \<open>totalRefresh\<close>\<close>

definition emptyStacks :: "string list \<Rightarrow> string list \<Rightarrow> (string \<times> axis_limits list) list" where
  "emptyStacks xs ys =
     fold (\<lambda>xOpt m. fold (\<lambda>yOpt m'. AList.update (joinXYStrings xOpt yOpt) [] m') ys m) xs []"

definition vinitVars_sync :: "selector \<Rightarrow> error + selector" where
  "vinitVars_sync s =
     (let s1 = s\<lparr>zoomHistoryMap :=
                    fold (\<lambda>c m. AList.update c (emptyStacks (xOptions s) (yOptions s)) m)
                      (compounds (core s)) []\<rparr>
      in case initVars_sync (core s1) of
           Inl e \<Rightarrow> Inl e
         | Inr c \<Rightarrow> Inr (s1\<lparr>core := c\<rparr>))"

definition vinitVars :: "(string \<Rightarrow> rat vdatum list option) \<Rightarrow> selector \<Rightarrow> error + selector" where
  "vinitVars fetch s =
     (case vinitVars_sync s of
        Inl e \<Rightarrow> Inl e
      | Inr s1 \<Rightarrow> vfetched fetch (previousCompound (core s1)) XNull XNull YNull YNull s1)"



definition vconstructed ::
  "string list \<Rightarrow> string list \<Rightarrow> string list \<Rightarrow> string \<Rightarrow> string \<Rightarrow> rat \<Rightarrow> rat \<Rightarrow> rat \<Rightarrow> selector" where
  "vconstructed cs xs ys x0 y0 yAxisRound zoomLimit offset =
     \<lparr>core = constructed cs yAxisRound zoomLimit offset, zoomHistoryMap = [],
      xOptions = xs, yOptions = ys, dataXDefault = x0, dataYDefault = y0, globalXDefault = x0\<rparr>"

definition ex_selector :: selector where
  "ex_selector =
     vconstructed [''ethane'', ''propane''] [''date'', ''meas_date''] [''year'', ''MR'']
       ''date'' ''MR'' 50 2678400000 (- 2)"

definition ex_vfetch :: "string \<Rightarrow> rat vdatum list option" where
  "ex_vfetch c =
     Some [\<lparr>xfields = [(''date'', 1577844000), (''meas_date'', 1577930400)],
            yfields = [(''year'', 2020), (''MR'', 37)]\<rparr>,
           \<lparr>xfields = [(''date'', 1580608800), (''meas_date'', 1580695200)],
            yfields = [(''year'', 2020), (''MR'', 73/2)]\<rparr>]"

subsection \<open>The other listeners of \<open>DataSelector\<close>, and its runs\<close>









text \<open>No entry of a stack has the four bounds of the entry below it (a date is its time
  value, so that two limits with the same bounds are equal).\<close>

fun noRepeat :: "axis_limits list \<Rightarrow> bool" where
  "noRepeat [] = True"
| "noRepeat [a] = True"
| "noRepeat (a # b # st) = (b \<noteq> a \<and> noRepeat (b # st))"

text \<open>Limits whose dates are valid and whose y bounds are numbers.\<close>

definition numbers :: "axis_limits \<Rightarrow> bool" where
  "numbers l \<longleftrightarrow> xMin l \<noteq> None \<and> xMax l \<noteq> None \<and> yMin l \<noteq> None \<and> yMax l \<noteq> None"

text \<open>Every file has, for each of the y options, a point with a value of it.\<close>

definition valued :: "(string \<Rightarrow> rat vdatum list option) \<Rightarrow> string list \<Rightarrow> bool" where
  "valued fetch ys \<longleftrightarrow>
     (\<forall>c data. fetch c = Some data \<longrightarrow>
        (\<forall>k \<in> set ys. \<exists>d \<in> set data. map_of (yfields d) k \<noteq> None))"

text \<open>The files have values, the y attribute in use is one of the options, and every stack
  is free of repeats and of \<open>NaN\<close>.\<close>

definition stacksOK :: "(string \<Rightarrow> rat vdatum list option) \<Rightarrow> selector \<Rightarrow> bool" where
  "stacksOK fetch s \<longleftrightarrow>
     valued fetch (yOptions s) \<and> dataYDefault s \<in> set (yOptions s)
     \<and> (\<forall>c sub k st. map_of (zoomHistoryMap s) c = Some sub \<longrightarrow> map_of sub k = Some st
           \<longrightarrow> noRepeat st \<and> list_all numbers st)"



definition ex_full :: axis_limits where
  "ex_full =
     \<lparr>xMin = Some 1577836800000, xMax = Some 1580601600000, yMin = Some 36, yMax = Some 37\<rparr>"






section \<open>Runs of zooms and undos\<close>

text \<open>Zooms of the fixed-axis variant, each given by the four inverted bounds of its
  rectangle, and clicks on its undo button.\<close>

fun zooms ::
  "(string \<Rightarrow> rat datum list option) \<Rightarrow> (jsdate \<times> jsdate \<times> jsnum \<times> jsnum) list \<Rightarrow> plot
     \<Rightarrow> error + plot" where
  "zooms fetch [] s = Inr s"
| "zooms fetch ((a, b, c, d) # zs) s =
     (case dragEnd fetch a b c d s of Inl e \<Rightarrow> Inl e | Inr s' \<Rightarrow> zooms fetch zs s')"

fun undos :: "(string \<Rightarrow> rat datum list option) \<Rightarrow> nat \<Rightarrow> plot \<Rightarrow> error + plot" where
  "undos fetch 0 s = Inr s"
| "undos fetch (Suc n) s =
     (case undoZoom fetch s of Inl e \<Rightarrow> Inl e | Inr s' \<Rightarrow> undos fetch n s')"

text \<open>The view and what it is computed from: two states of the plot agree on them when they
  differ in the selections at most.\<close>

definition same_view :: "plot \<Rightarrow> plot \<Rightarrow> bool" where
  "same_view s s' \<longleftrightarrow>
     limits s' = limits s \<and> zoomHistory s' = zoomHistory s \<and> yRound s' = yRound s
     \<and> xZoomLimit s' = xZoomLimit s \<and> UTCoffset s' = UTCoffset s
     \<and> compounds s' = compounds s \<and> selector_value s' = selector_value s
     \<and> previousCompound s' = previousCompound s"

text \<open>The limits in force are what a render of the selected compound's data with these very
  limits gives, as they are after any render of these data.\<close>

definition settled :: "(string \<Rightarrow> rat datum list option) \<Rightarrow> plot \<Rightarrow> bool" where
  "settled fetch s =
     (case (limits s, fetch (selector_value s)) of
        (Some lms, Some data) \<Rightarrow>
          createScales s (map (convert (UTCoffset s)) data)
            (XDate (xMin lms)) (XDate (xMax lms)) (YNum (yMin lms)) (YNum (yMax lms)) = Inr lms
      | _ \<Rightarrow> False)"

text \<open>The same for the variable-axis variant. A run of zooms is distinct when each of them
  returns and changes the limits in force.\<close>

fun vundos :: "(string \<Rightarrow> rat vdatum list option) \<Rightarrow> nat \<Rightarrow> selector \<Rightarrow> error + selector" where
  "vundos fetch 0 s = Inr s"
| "vundos fetch (Suc n) s =
     (case vundoZoom fetch s of Inl e \<Rightarrow> Inl e | Inr s' \<Rightarrow> vundos fetch n s')"

fun vzooms ::
  "(string \<Rightarrow> rat vdatum list option) \<Rightarrow> (jsdate \<times> jsdate \<times> jsnum \<times> jsnum) list \<Rightarrow> selector
     \<Rightarrow> error + selector" where
  "vzooms fetch [] s = Inr s"
| "vzooms fetch ((a, b, c, d) # zs) s =
     (case vdragEnd fetch a b c d s of Inl e \<Rightarrow> Inl e | Inr s' \<Rightarrow> vzooms fetch zs s')"

fun distinctZooms ::
  "(string \<Rightarrow> rat vdatum list option) \<Rightarrow> (jsdate \<times> jsdate \<times> jsnum \<times> jsnum) list \<Rightarrow> selector
     \<Rightarrow> bool" where
  "distinctZooms fetch [] s = True"
| "distinctZooms fetch ((a, b, c, d) # zs) s =
     (case vdragEnd fetch a b c d s of
        Inl e \<Rightarrow> False
      | Inr s' \<Rightarrow> limits (core s') \<noteq> limits (core s) \<and> distinctZooms fetch zs s')"

text \<open>
  The current compound is the selected one and its file is fetched; some point has a value
  of the y attribute; the stack of the current compound and attributes is not empty, its
  top is the limits in force, and these have numbers for the y bounds and are what
  \<open>processAxis\<close> gives when it is called with them.
\<close>

definition vsettled :: "(string \<Rightarrow> rat vdatum list option) \<Rightarrow> selector \<Rightarrow> bool" where
  "vsettled fetch s =
     (case (limitStack s, fetch (selector_value (core s))) of
        (Some st, Some data0) \<Rightarrow>
          (let data = map (vconvert (xOptions s) (UTCoffset (core s))) data0 in
           previousCompound (core s) = Some (selector_value (core s))
           \<and> d3max (map (yattr (dataYDefault s)) data) \<noteq> None
           \<and> st \<noteq> [] \<and> limits (core s) = Some (last st)
           \<and> yMin (last st) \<noteq> None \<and> yMax (last st) \<noteq> None
           \<and> processAxisX data (dataXDefault s) (XDate (xMin (last st))) (XDate (xMax (last st)))
               = Inr (xMin (last st), xMax (last st))
           \<and> processAxisY data (dataYDefault s) (YNum (yMin (last st))) (YNum (yMax (last st)))
               = (yMin (last st), yMax (last st)))
      | _ \<Rightarrow> False)"

text \<open>The two halves of \<open>createScales\<close> of the variable-axis variant: the limits it computes
  over the stack \<open>st\<close>, and the stack after it.\<close>

definition vlimits ::
  "string \<Rightarrow> string \<Rightarrow> jsdate vdatum list \<Rightarrow> axis_limits list \<Rightarrow> xarg \<Rightarrow> xarg \<Rightarrow> yarg \<Rightarrow> yarg
     \<Rightarrow> error + axis_limits" where
  "vlimits xa ya data st xMin0 xMax0 yMin0 yMax0 =
     (let peek = (xMin0 = XNull \<or> xMax0 = XNull \<or> yMin0 = YNull \<or> yMax0 = YNull)
                   \<and> length st \<noteq> 0;
          xMin1 = (if peek then XDate (xMin (last st)) else xMin0);
          xMax1 = (if peek then XDate (xMax (last st)) else xMax0);
          yMin1 = (if peek then YNum (yMin (last st)) else yMin0);
          yMax1 = (if peek then YNum (yMax (last st)) else yMax0)
      in case processAxisX data xa xMin1 xMax1 of
           Inl e \<Rightarrow> Inl e
         | Inr (xMin2, xMax2) \<Rightarrow>
             (let (yMin2, yMax2) = processAxisY data ya yMin1 yMax1
              in Inr \<lparr>xMin = xMin2, xMax = xMax2, yMin = yMin2, yMax = yMax2\<rparr>))"

definition pushed :: "axis_limits list \<Rightarrow> axis_limits \<Rightarrow> axis_limits list" where
  "pushed st lms =
     (if length st \<noteq> 0 then (if \<not> areLimitsEqual lms (last st) then st @ [lms] else st)
      else st @ [lms])"

text \<open>Two states of the selector agree on all but the selections, the limits and the zoom
  history.\<close>

definition vsame :: "selector \<Rightarrow> selector \<Rightarrow> bool" where
  "vsame s s' \<longleftrightarrow>
     xOptions s' = xOptions s \<and> yOptions s' = yOptions s
     \<and> dataXDefault s' = dataXDefault s \<and> dataYDefault s' = dataYDefault s
     \<and> globalXDefault s' = globalXDefault s
     \<and> xZoomLimit (core s') = xZoomLimit (core s) \<and> UTCoffset (core s') = UTCoffset (core s)
     \<and> compounds (core s') = compounds (core s)
     \<and> selector_value (core s') = selector_value (core s)
     \<and> previousCompound (core s') = previousCompound (core s)"

subsection \<open>Example runs\<close>

text \<open>The plot and the selector once their first render is done, and the selector when
  the first request has failed.\<close>

definition ex_rendered :: plot where
  "ex_rendered = projr (initVars ex_fetch ex_plot)"

definition ex_ready :: selector where
  "ex_ready = projr (vinitVars ex_vfetch ex_selector)"

definition ex_pending :: selector where
  "ex_pending = projr (vinitVars (\<lambda>c. None) ex_selector)"

text \<open>Two zooms of the plot, and the states after them and after two undos.\<close>

definition ex_zs :: "(jsdate \<times> jsdate \<times> jsnum \<times> jsnum) list" where
  "ex_zs = [(Some 1578000000000, Some 1580000000000, Some 10, Some 40),
            (Some 1578500000000, Some 1578500000001, Some 20, Some 30)]"

definition ex_in :: plot where
  "ex_in = projr (zooms ex_fetch ex_zs ex_rendered)"

definition ex_out :: plot where
  "ex_out = projr (undos ex_fetch 2 ex_in)"

definition ex_vin :: selector where
  "ex_vin = projr (vzooms ex_vfetch ex_zs ex_ready)"

definition ex_vout :: selector where
  "ex_vout = projr (vundos ex_vfetch 2 ex_vin)"

definition ex_vback :: selector where
  "ex_vback = projr (vundoZoom ex_vfetch ex_vin)"

definition ex_back :: plot where
  "ex_back = projr (undoZoom ex_fetch ex_in)"

text \<open>Limits around the epoch.\<close>

definition ex_early :: axis_limits where
  "ex_early = \<lparr>xMin = Some 0, xMax = Some 5000, yMin = Some 0, yMax = Some 50\<rparr>"

text \<open>A narrow zoom of the plot and of the selector, and a click followed by a zoom.\<close>

definition ex_narrow :: plot where
  "ex_narrow =
     projr (dragEnd ex_fetch (Some 1578500000000) (Some 1578500000002) (Some 20) (Some 30)
              ex_rendered)"

definition ex_vnarrow :: selector where
  "ex_vnarrow =
     projr (vdragEnd ex_vfetch (Some 1578500000000) (Some 1578500000002) (Some 20) (Some 30)
              ex_ready)"

definition ex_used :: plot where
  "ex_used =
     projr (case updateClicked ex_item True ex_rendered of
              Inl e \<Rightarrow> Inl e
            | Inr s \<Rightarrow>
                dragEnd ex_fetch (Some 1578000000000) (Some 1580000000000) (Some 10) (Some 40) s)"

definition ex_first :: axis_limits where
  "ex_first =
     \<lparr>xMin = Some 1577660800000, xMax = Some 1580339200000, yMin = Some 10, yMax = Some 40\<rparr>"

definition ex_second :: axis_limits where
  "ex_second =
     \<lparr>xMin = Some 1577160800000, xMax = Some 1579839200000, yMin = Some 20, yMax = Some 30\<rparr>"

section \<open>Properties of the selection engine\<close>

subsection \<open>Sets, \<open>commitSelections\<close> and \<open>cleanPlot\<close>\<close>

lemma set_add_set [simp]: "set (set_add x xs) = insert x (set xs)"
  by (auto simp: set_add_def)

lemma set_add_idem [simp]: "set_add x (set_add x xs) = set_add x xs"
  by (simp add: set_add_def)

lemma commit_one_byCompound:
  "map_of (selectionsByCompound (commit_one c d s)) c' =
     (if c' = c then Some (set_add d (the (map_of (selectionsByCompound s) c)))
      else map_of (selectionsByCompound s) c')"
  by (simp add: commit_one_def Let_def update_conv')

lemma commit_one_byDate:
  "map_of (selectionsByDate (commit_one c d s)) d' =
     (if d' = d
      then Some (set_add c (case map_of (selectionsByDate s) d of None \<Rightarrow> [] | Some cs \<Rightarrow> cs))
      else map_of (selectionsByDate s) d')"
  by (simp add: commit_one_def Let_def update_conv' split: option.splits)

lemma commit_one_other [simp]:
  "previousCompound (commit_one c d s) = previousCompound s"
  "selectedDates (commit_one c d s) = selectedDates s"
  "zoomHistory (commit_one c d s) = zoomHistory s"
  "limits (commit_one c d s) = limits s"
  "selector_value (commit_one c d s) = selector_value s"
  by (simp_all add: commit_one_def Let_def)

lemma commit_loop_other [simp]:
  "previousCompound (commit_loop c ds s) = previousCompound s"
  "selectedDates (commit_loop c ds s) = selectedDates s"
  "zoomHistory (commit_loop c ds s) = zoomHistory s"
  "limits (commit_loop c ds s) = limits s"
  "selector_value (commit_loop c ds s) = selector_value s"
  by (induction ds arbitrary: s) simp_all

lemma commit_loop_byDate:
  "map_of (selectionsByDate (commit_loop c ds s)) d =
     (if d \<in> set ds
      then Some (set_add c (case map_of (selectionsByDate s) d of None \<Rightarrow> [] | Some cs \<Rightarrow> cs))
      else map_of (selectionsByDate s) d)"
  by (induction ds arbitrary: s) (auto simp: commit_one_byDate)

lemma commit_loop_byCompound_other:
  "c' \<noteq> c \<Longrightarrow> map_of (selectionsByCompound (commit_loop c ds s)) c' = map_of (selectionsByCompound s) c'"
  by (induction ds arbitrary: s) (auto simp: commit_one_byCompound)

lemma commit_loop_byCompound:
  "map_of (selectionsByCompound s) c = Some old \<Longrightarrow>
   \<exists>new. map_of (selectionsByCompound (commit_loop c ds s)) c = Some new \<and> set new = set old \<union> set ds"
proof (induction ds arbitrary: s old)
  case Nil
  then show ?case by simp
next
  case (Cons d ds)
  have "map_of (selectionsByCompound (commit_one c d s)) c = Some (set_add d old)"
    using Cons.prems by (simp add: commit_one_byCompound)
  from Cons.IH [OF this] show ?case by auto
qed

lemma pruned_idem [simp]: "pruned c (pruned c e) = pruned c e"
  by (simp add: pruned_def set_delete_def split: option.splits)

lemma clean_one_byDate:
  "map_of (selectionsByDate (clean_one c d s)) d' =
     (if d' = d then pruned c (map_of (selectionsByDate s) d) else map_of (selectionsByDate s) d')"
  by (simp add: clean_one_def pruned_def Let_def update_conv' delete_conv' split: option.splits)

lemma clean_one_other [simp]:
  "selectionsByCompound (clean_one c d s) = selectionsByCompound s"
  by (simp add: clean_one_def Let_def split: option.splits)

lemma clean_loop_other [simp]:
  "selectionsByCompound (clean_loop c ds s) = selectionsByCompound s"
  by (induction ds arbitrary: s) simp_all

lemma clean_loop_byDate:
  "map_of (selectionsByDate (clean_loop c ds s)) d =
     (if d \<in> set ds then pruned c (map_of (selectionsByDate s) d) else map_of (selectionsByDate s) d)"
  by (induction ds arbitrary: s) (auto simp: clean_one_byDate)

lemma has_key_Nil [simp]: "has_key [] d = False"
  by (simp add: has_key_def split: sum.splits)

lemma render_then_cleared:
  assumes "deref s = Some []" and "render_then data a b y z s = Inr s'"
  shows "selectionsByDate s' = selectionsByDate s \<and> selectionsByCompound s' = selectionsByCompound s"
proof -
  have d: "deref (s\<lparr>limits := Some l\<rparr>) = Some []" for l
    using assms(1) by (simp add: deref_def split: sel_ref.splits)
  show ?thesis
    using assms(2) by (auto simp: render_then_def Let_def d split: sum.splits)
qed

lemma render_cleared:
  assumes "map_of (selectionsByCompound s) c = Some []"
    and "render fetch (Some c) a b y z s = Inr s'"
  shows "selectionsByDate s' = selectionsByDate s \<and> selectionsByCompound s' = selectionsByCompound s"
proof -
  have "deref (s\<lparr>selectedDates := SetOf c\<rparr>) = Some []"
    using assms(1) by (simp add: deref_def)
  with assms show ?thesis
    by (auto simp: render_def render_sync_def fetched_def split: option.splits dest: render_then_cleared)
qed

lemma cleanPlot_effect:
  assumes "cleanPlot fetch c s = Inr s'"
  shows "map_of (selectionsByDate s') d =
           (if d \<in> set (the (map_of (selectionsByCompound s) c))
            then pruned c (map_of (selectionsByDate s) d) else map_of (selectionsByDate s) d)"
    and "map_of (selectionsByCompound s') c' =
           (if c' = c then Some [] else map_of (selectionsByCompound s) c')"
proof -
  from assms obtain ds where ds: "map_of (selectionsByCompound s) c = Some ds"
    by (auto simp: cleanPlot_def split: option.splits)
  define s2 where "s2 = (clean_loop c ds s)\<lparr>selectionsByCompound :=
                         AList.update c [] (selectionsByCompound (clean_loop c ds s))\<rparr>"
  have r: "render fetch (Some c) XNull XNull YNull YNull s2 = Inr s'"
    using assms ds by (simp add: cleanPlot_def s2_def Let_def)
  have "map_of (selectionsByCompound s2) c = Some []"
    by (simp add: s2_def update_conv')
  from render_cleared [OF this r]
  have eq: "selectionsByDate s' = selectionsByDate s2" "selectionsByCompound s' = selectionsByCompound s2"
    by simp_all
  show "map_of (selectionsByDate s') d =
           (if d \<in> set (the (map_of (selectionsByCompound s) c))
            then pruned c (map_of (selectionsByDate s) d) else map_of (selectionsByDate s) d)"
    by (simp add: eq s2_def clean_loop_byDate ds)
  show "map_of (selectionsByCompound s') c' =
           (if c' = c then Some [] else map_of (selectionsByCompound s) c')"
    by (simp add: eq s2_def update_conv')
qed

lemma commitSelections_effect:
  assumes "commitSelections (Some c) s = Inr s'" and "deref s = Some ds" and "d \<in> set ds"
  shows "(\<exists>cs. map_of (selectionsByDate s') d = Some cs \<and> c \<in> set cs)
       \<and> (\<exists>ks. map_of (selectionsByCompound s') c = Some ks \<and> d \<in> set ks)"
proof -
  from assms obtain old where old: "map_of (selectionsByCompound s) c = Some old"
    and s': "s' = commit_loop c ds s"
    by (auto simp: commitSelections_def split: option.splits)
  from commit_loop_byCompound [OF old, of ds] assms(3) show ?thesis
    by (auto simp: s' commit_loop_byDate)
qed

subsection \<open>Runs of clicks\<close>

lemma commit_current:
  assumes "selectedDates s = SetOf c" and "previousCompound s = Some c"
    and "map_of (selectionsByCompound s) c = Some ds"
  shows "commitSelections (Some c) s = Inr (commit_loop c ds s)"
    and "ledgered c (commit_loop c ds s)"
proof -
  show "commitSelections (Some c) s = Inr (commit_loop c ds s)"
    using assms by (simp add: commitSelections_def deref_def)
  from commit_loop_byCompound [OF assms(3), of ds]
  obtain new where "map_of (selectionsByCompound (commit_loop c ds s)) c = Some new"
    and "set new = set ds" by auto
  then show "ledgered c (commit_loop c ds s)"
    using assms(1,2) by (auto simp: ledgered_def commit_loop_byDate)
qed

lemma updateClicked_add:
  assumes "selectedDates s = SetOf c" and "previousCompound s = Some c"
    and "map_of (selectionsByCompound s) c = Some ds"
    and "formatISODate (date item) (salt item) = Inr k"
    and "\<not> (k \<in> set ds \<and> r)"
  shows "updateClicked item r s =
           Inr (commit_loop c (set_add k ds)
                  (s\<lparr>selectionsByCompound := AList.update c (set_add k ds) (selectionsByCompound s)\<rparr>))"
proof -
  let ?s1 = "s\<lparr>selectionsByCompound := AList.update c (set_add k ds) (selectionsByCompound s)\<rparr>"
  have a: "assign (set_add k ds) s = ?s1"
    using assms(1) by (simp add: assign_def)
  have "commitSelections (Some c) ?s1 = Inr (commit_loop c (set_add k ds) ?s1)"
    by (rule commit_current(1)) (use assms in \<open>simp_all add: update_conv'\<close>)
  then show ?thesis
    using assms by (auto simp: updateClicked_def deref_def a)
qed

lemma updateClicked_remove:
  assumes "ledgered c s" and "map_of (selectionsByCompound s) c = Some ds"
    and "formatISODate (date item) (salt item) = Inr k"
    and "k \<in> set ds"
  shows "\<exists>s'. updateClicked item True s = Inr s' \<and> ledgered c s'"
proof -
  from assms(1) have sel: "selectedDates s = SetOf c" and prev: "previousCompound s = Some c"
    by (simp_all add: ledgered_def)
  from assms(1,2,4) obtain cs where cs: "map_of (selectionsByDate s) k = Some cs"
    by (auto simp: ledgered_def)
  let ?ds = "set_delete k ds"
  let ?s1 = "s\<lparr>selectionsByCompound := AList.update c ?ds (selectionsByCompound s)\<rparr>"
  let ?cs = "set_delete c cs"
  let ?s2 = "?s1\<lparr>selectionsByDate := AList.update k ?cs (selectionsByDate ?s1)\<rparr>"
  let ?s3 = "if length ?cs = 0 then ?s2\<lparr>selectionsByDate := AList.delete k (selectionsByDate ?s2)\<rparr> else ?s2"
  have a: "assign ?ds s = ?s1"
    using sel by (simp add: assign_def)
  have s3: "selectedDates ?s3 = SetOf c" "previousCompound ?s3 = Some c"
    "map_of (selectionsByCompound ?s3) c = Some ?ds"
    using sel prev by (simp_all add: update_conv')
  have u: "updateClicked item True s = commitSelections (Some c) ?s3"
    using assms(2,3,4) sel prev cs
    by (simp add: updateClicked_def deref_def a Let_def)
  from commit_current [OF s3] u show ?thesis
    by metis
qed

lemma updateClicked_ledgered:
  assumes "ledgered c s" and "formatISODate (date item) (salt item) = Inr k"
  shows "\<exists>s'. updateClicked item r s = Inr s' \<and> ledgered c s'"
proof -
  from assms(1) obtain ds where sel: "selectedDates s = SetOf c"
    and prev: "previousCompound s = Some c"
    and ds: "map_of (selectionsByCompound s) c = Some ds"
    by (auto simp: ledgered_def)
  show ?thesis
  proof (cases "k \<in> set ds \<and> r")
    case True
    with updateClicked_remove [OF assms(1) ds assms(2)] show ?thesis by simp
  next
    case False
    let ?s1 = "s\<lparr>selectionsByCompound := AList.update c (set_add k ds) (selectionsByCompound s)\<rparr>"
    have "ledgered c (commit_loop c (set_add k ds) ?s1)"
      by (rule commit_current(2)) (use sel prev in \<open>simp_all add: update_conv'\<close>)
    with updateClicked_add [OF sel prev ds assms(2) False] show ?thesis by simp
  qed
qed

lemma formatISODate_valid: "d \<noteq> None \<Longrightarrow> \<exists>k. formatISODate d sa = Inr k"
  by (auto simp: formatISODate_def toISOString_def Let_def split: prod.splits)

lemma formatISODate_error: "formatISODate d sa = Inl e \<Longrightarrow> e = RangeError"
  by (auto simp: formatISODate_def toISOString_def Let_def split: prod.splits option.splits sum.splits if_splits)

lemma updateClicked_invalid:
  "formatISODate (date item) (salt item) = Inl e \<Longrightarrow> updateClicked item r s = Inl RangeError"
  by (frule formatISODate_error) (simp add: updateClicked_def)

lemma clicks_ledgered:
  assumes "ledgered c s"
  shows "clicks evs s \<noteq> Inl TypeError
       \<and> ((\<forall>e \<in> set evs. date (fst e) \<noteq> None) \<longrightarrow> (\<exists>s'. clicks evs s = Inr s' \<and> ledgered c s'))"
  using assms
proof (induction evs arbitrary: s)
  case Nil
  then show ?case by simp
next
  case (Cons ev evs)
  obtain item r where ev: "ev = (item, r)" by (cases ev)
  show ?case
  proof (cases "formatISODate (date item) (salt item)")
    case (Inl e)
    then have "updateClicked item r s = Inl RangeError" by (rule updateClicked_invalid)
    moreover from Inl have "date item = None"
      using formatISODate_valid [of "date item" "salt item"] by (cases "date item") auto
    ultimately show ?thesis by (simp add: ev)
  next
    case (Inr k)
    from updateClicked_ledgered [OF Cons.prems Inr, of r]
    obtain s1 where s1: "updateClicked item r s = Inr s1" "ledgered c s1" by auto
    from Cons.IH [OF s1(2)] s1(1) show ?thesis by (simp add: ev)
  qed
qed

subsection \<open>Commit and clear\<close>

text \<open>
  Claim C1. When \<open>commitSelections\<close> returns for a compound \<open>c\<close>, every date-key of the
  set \<open>selectedDates\<close> referred to has an entry in \<open>selectionsByDate\<close> that contains
  \<open>c\<close>, and is a member of the set of \<open>c\<close> in \<open>selectionsByCompound\<close>. When \<open>cleanPlot\<close>
  returns for \<open>c\<close>, the entries of the date-keys \<open>c\<close> had selected have lost \<open>c\<close> and
  nothing else (an entry left empty is gone), and every other entry is as it was. Committing
  ethane and then propane with the in-progress selection \<open>{2020-01-01 00:00}\<close> leaves
  ethane and propane under that date, and clearing ethane then leaves propane.
\<close>

theorem commit_then_clear:
  "(\<forall>s c s' ds d.
      commitSelections (Some c) s = Inr s' \<and> deref s = Some ds \<and> d \<in> set ds \<longrightarrow>
        (\<exists>cs. map_of (selectionsByDate s') d = Some cs \<and> c \<in> set cs)
        \<and> (\<exists>ks. map_of (selectionsByCompound s') c = Some ks \<and> d \<in> set ks))
   \<and> (\<forall>fetch s c s' ks d.
      cleanPlot fetch c s = Inr s' \<and> map_of (selectionsByCompound s) c = Some ks \<longrightarrow>
        map_of (selectionsByDate s') d =
          (if d \<in> set ks then pruned c (map_of (selectionsByDate s) d)
           else map_of (selectionsByDate s) d))
   \<and> (case commitSelections (Some ''ethane'') ex_start of
        Inl _ \<Rightarrow> None
      | Inr s1 \<Rightarrow>
          (case commitSelections (Some ''propane'') s1 of
             Inl _ \<Rightarrow> None
           | Inr s2 \<Rightarrow>
               (case cleanPlot ex_fetch ''ethane'' s2 of
                  Inl _ \<Rightarrow> None
                | Inr s3 \<Rightarrow>
                    Some (map_of (selectionsByDate s2) ''2020-01-01 00:00'',
                          map_of (selectionsByDate s3) ''2020-01-01 00:00''))))
     = Some (Some [''ethane'', ''propane''], Some [''propane''])"
proof (intro conjI allI impI)
  fix s c s' ds d
  assume "commitSelections (Some c) s = Inr s' \<and> deref s = Some ds \<and> d \<in> set ds"
  then have "(\<exists>cs. map_of (selectionsByDate s') d = Some cs \<and> c \<in> set cs)
       \<and> (\<exists>ks. map_of (selectionsByCompound s') c = Some ks \<and> d \<in> set ks)"
    using commitSelections_effect [of c s s' ds d] by simp
  then show "\<exists>cs. map_of (selectionsByDate s') d = Some cs \<and> c \<in> set cs"
    and "\<exists>ks. map_of (selectionsByCompound s') c = Some ks \<and> d \<in> set ks"
    by simp_all
next
  fix fetch s c s' ks d
  assume "cleanPlot fetch c s = Inr s' \<and> map_of (selectionsByCompound s) c = Some ks"
  then show "map_of (selectionsByDate s') d =
          (if d \<in> set ks then pruned c (map_of (selectionsByDate s) d)
           else map_of (selectionsByDate s) d)"
    using cleanPlot_effect(1) [of fetch c s s' d] by simp
next
  show "(case commitSelections (Some ''ethane'') ex_start of
        Inl _ \<Rightarrow> None
      | Inr s1 \<Rightarrow>
          (case commitSelections (Some ''propane'') s1 of
             Inl _ \<Rightarrow> None
           | Inr s2 \<Rightarrow>
               (case cleanPlot ex_fetch ''ethane'' s2 of
                  Inl _ \<Rightarrow> None
                | Inr s3 \<Rightarrow>
                    Some (map_of (selectionsByDate s2) ''2020-01-01 00:00'',
                          map_of (selectionsByDate s3) ''2020-01-01 00:00''))))
     = Some (Some [''ethane'', ''propane''], Some [''propane''])"
    by code_simp
qed

theorem commit_then_clear_witness:
  "commitSelections (Some ''ethane'') ex_start = Inr ex_one
   \<and> deref ex_start = Some [''2020-01-01 00:00'']
   \<and> (\<exists>cs. map_of (selectionsByDate ex_one) ''2020-01-01 00:00'' = Some cs \<and> ''ethane'' \<in> set cs)
   \<and> (\<exists>ks. map_of (selectionsByCompound ex_one) ''ethane'' = Some ks
          \<and> ''2020-01-01 00:00'' \<in> set ks)
   \<and> cleanPlot ex_fetch ''ethane'' ex_two = Inr ex_three
   \<and> map_of (selectionsByCompound ex_two) ''ethane'' = Some [''2020-01-01 00:00'']
   \<and> map_of (selectionsByDate ex_three) ''2020-01-01 00:00''
       = pruned ''ethane'' (map_of (selectionsByDate ex_two) ''2020-01-01 00:00'')"
proof -
  have c: "commitSelections (Some ''ethane'') ex_start = Inr ex_one" by code_simp
  have d: "deref ex_start = Some [''2020-01-01 00:00'']" by code_simp
  have m: "''2020-01-01 00:00'' \<in> set [''2020-01-01 00:00'']" by simp
  have p: "cleanPlot ex_fetch ''ethane'' ex_two = Inr ex_three" by code_simp
  have q: "map_of (selectionsByCompound ex_two) ''ethane'' = Some [''2020-01-01 00:00'']"
    by code_simp
  note A = commit_then_clear [THEN conjunct1, rule_format, OF conjI [OF c conjI [OF d m]]]
  note B = commit_then_clear [THEN conjunct2, THEN conjunct1, rule_format, OF conjI [OF p q],
      of "''2020-01-01 00:00''"]
  from B have "map_of (selectionsByDate ex_three) ''2020-01-01 00:00''
       = pruned ''ethane'' (map_of (selectionsByDate ex_two) ''2020-01-01 00:00'')"
    by (simp only: m if_True)
  with A [THEN conjunct1] A [THEN conjunct2] c d p q show ?thesis by (intro conjI)
qed

subsection \<open>Clicks are committed at once\<close>

text \<open>
  Claim C9. Let the compound \<open>c\<close> be current: \<open>previousCompound\<close> is \<open>c\<close> and
  \<open>selectedDates\<close> is the set of \<open>c\<close> in \<open>selectionsByCompound\<close>. A call of
  \<open>updateClicked\<close> that takes the adding branch for the date-key \<open>d\<close> returns, and on its
  return \<open>d\<close> is in the set of \<open>c\<close> in \<open>selectionsByCompound\<close> and \<open>c\<close> is in the entry of
  \<open>d\<close> in \<open>selectionsByDate\<close>: no further commit is needed.
\<close>

theorem toggle_committed_at_once:
  assumes "selectedDates s = SetOf c" and "previousCompound s = Some c"
    and "map_of (selectionsByCompound s) c = Some ds"
    and "formatISODate (date item) (salt item) = Inr d"
    and "\<not> (d \<in> set ds \<and> removeOnDupe)"
  shows "\<exists>s'. updateClicked item removeOnDupe s = Inr s'
           \<and> (\<exists>ks. map_of (selectionsByCompound s') c = Some ks \<and> d \<in> set ks)
           \<and> (\<exists>cs. map_of (selectionsByDate s') d = Some cs \<and> c \<in> set cs)"
proof -
  let ?s1 = "s\<lparr>selectionsByCompound := AList.update c (set_add d ds) (selectionsByCompound s)\<rparr>"
  let ?s' = "commit_loop c (set_add d ds) ?s1"
  have u: "updateClicked item removeOnDupe s = Inr ?s'"
    using assms by (rule updateClicked_add)
  have old: "map_of (selectionsByCompound ?s1) c = Some (set_add d ds)"
    by (simp add: update_conv')
  from commit_loop_byCompound [OF old, of "set_add d ds"]
  have "\<exists>ks. map_of (selectionsByCompound ?s') c = Some ks \<and> d \<in> set ks"
    by auto
  moreover have "\<exists>cs. map_of (selectionsByDate ?s') d = Some cs \<and> c \<in> set cs"
    by (simp add: commit_loop_byDate)
  ultimately show ?thesis using u by blast
qed

theorem toggle_committed_at_once_witness:
  "selectedDates ex_one = SetOf ''ethane'' \<and> previousCompound ex_one = Some ''ethane''
   \<and> map_of (selectionsByCompound ex_one) ''ethane'' = Some [''2020-01-01 00:00'']
   \<and> formatISODate (date ex_item) (salt ex_item) = Inr ''2020-02-02 00:00''
   \<and> \<not> (''2020-02-02 00:00'' \<in> set [''2020-01-01 00:00''] \<and> True)
   \<and> (\<exists>s'. updateClicked ex_item True ex_one = Inr s'
           \<and> (\<exists>ks. map_of (selectionsByCompound s') ''ethane'' = Some ks
                  \<and> ''2020-02-02 00:00'' \<in> set ks)
           \<and> (\<exists>cs. map_of (selectionsByDate s') ''2020-02-02 00:00'' = Some cs
                  \<and> ''ethane'' \<in> set cs))"
proof -
  have a: "selectedDates ex_one = SetOf ''ethane''" by code_simp
  have b: "previousCompound ex_one = Some ''ethane''" by code_simp
  have c: "map_of (selectionsByCompound ex_one) ''ethane'' = Some [''2020-01-01 00:00'']"
    by code_simp
  have d: "formatISODate (date ex_item) (salt ex_item) = Inr ''2020-02-02 00:00''"
    by code_simp
  have e: "\<not> (''2020-02-02 00:00'' \<in> set [''2020-01-01 00:00''] \<and> True)" by simp
  from toggle_committed_at_once [OF a b c d e] a b c d e show ?thesis by (intro conjI)
qed

subsection \<open>The removal branch finds its entry\<close>

text \<open>
  Claim C10. Let the compound \<open>c\<close> be current and let every date-key of its set have an
  entry in \<open>selectionsByDate\<close>, as is the case when each was added by a call of
  \<open>updateClicked\<close> for \<open>c\<close>, whose closing commit made the entry. Then no run of calls of
  \<open>updateClicked\<close>, removing or not, throws a TypeError: the lookup of the removal branch
  never yields \<open>undefined\<close>. When the dates of the clicked points are valid, the run
  returns, and the condition holds again after it.
\<close>

theorem removal_never_undefined:
  assumes "ledgered c s"
  shows "clicks evs s \<noteq> Inl TypeError
       \<and> ((\<forall>e \<in> set evs. date (fst e) \<noteq> None) \<longrightarrow>
             (\<exists>s'. clicks evs s = Inr s' \<and> ledgered c s'))"
  using assms by (rule clicks_ledgered)

theorem removal_never_undefined_witness:
  "ledgered ''ethane'' ex_one
   \<and> clicks [(ex_item, True), (ex_item, True)] ex_one \<noteq> Inl TypeError
   \<and> date ex_item \<noteq> None
   \<and> (\<exists>s'. clicks [(ex_item, True), (ex_item, True)] ex_one = Inr s' \<and> ledgered ''ethane'' s')"
proof -
  have l: "ledgered ''ethane'' ex_one"
    by (simp add: ledgered_def ex_one_def ex_start_def)
  have v: "\<forall>e \<in> set [(ex_item, True), (ex_item, True)]. date (fst e) \<noteq> None"
    by (simp add: ex_item_def)
  have w: "date ex_item \<noteq> None"
    by (simp add: ex_item_def)
  from removal_never_undefined [OF l, of "[(ex_item, True), (ex_item, True)]"] l v w
  show ?thesis by blast
qed

section \<open>Dates, export and scales\<close>

subsection \<open>The rendered date\<close>

text \<open>
  Claim C4, as amended. \<open>render\<close> turns the epoch seconds \<open>e\<close> of a data point, with the
  offset of \<open>h\<close> hours, into the date \<open>new Date((e + 3600 * h) * 1000)\<close>. The point at
  epoch 1500000000 with the offset -2 gets the date \<open>new Date((1500000000 - 7200) * 1000)\<close>,
  which \<open>formatISODate\<close> without salt writes as \<open>2017-07-14 00:40\<close>.
\<close>

theorem rendered_date:
  "date (convert h d) = newDate ((date d + 3600 * h) * 1000)
   \<and> date (convert (- 2) ex_epoch) = newDate ((1500000000 - 7200) * 1000)
   \<and> formatISODate (date (convert (- 2) ex_epoch)) None = Inr ''2017-07-14 00:40''"
proof (intro conjI)
  show "date (convert h d) = newDate ((date d + 3600 * h) * 1000)"
    by (simp add: convert_def)
  show "date (convert (- 2) ex_epoch) = newDate ((1500000000 - 7200) * 1000)"
    by (simp add: convert_def ex_epoch_def)
  show "formatISODate (date (convert (- 2) ex_epoch)) None = Inr ''2017-07-14 00:40''"
    by code_simp
qed

text \<open>The claim as it was stated gives \<open>2017-07-13 23:40\<close> for the example; epoch 1500000000
  is 2017-07-14 02:40 UTC, and two hours earlier is still the 14th.\<close>

theorem rendered_date_counterexample:
  "formatISODate (date (convert (- 2) ex_epoch)) None \<noteq> Inr ''2017-07-13 23:40''"
  by code_simp

subsection \<open>The order of the exported file\<close>

text \<open>
  Claim C5, at an input where the code departs from it. With a salted and an unsalted key of
  the same minute in the ledger, \<open>getJSONfile\<close> writes the salted key first, although the
  unsalted key is the smaller string: the entries are sorted by key, comma and
  \<open>[object Set]\<close>, and the space that starts the salt is below the comma.
\<close>

theorem export_order_salted:
  "getJSONfile ex_salted =
     Inr (ex_salted, [(''2020-01-01 00:00 5'', [''ethane'']), (''2020-01-01 00:00'', [''ethane''])])
   \<and> ''2020-01-01 00:00'' < ''2020-01-01 00:00 5''"
  by code_simp

lemma export_example:
  "getJSONfile ex_ledger =
     Inr (ex_ledger, [(''2020-01-01 00:00'', [''propane'']), (''2020-02-02 00:00'', [''ethane''])])"
  by code_simp

text \<open>Keys of one length are exported in ascending order.\<close>

lemma append_le_same_length:
  "length k1 = length k2 \<Longrightarrow> (k1 @ s \<le> k2 @ (s :: string)) = (k1 \<le> k2)"
proof (induction k1 arbitrary: k2)
  case Nil
  then show ?case by simp
next
  case (Cons c k1)
  then obtain d k2' where k2: "k2 = d # k2'" and l: "length k1 = length k2'"
    by (cases k2) auto
  show ?case
    unfolding k2 using Cons.IH [OF l] by (simp add: Cons_le_Cons)
qed

lemma sorted_map_mono:
  fixes f :: "'a \<Rightarrow> 'b::linorder" and g :: "'a \<Rightarrow> 'c::linorder"
  assumes "sorted (map f xs)" and "\<And>x y. x \<in> set xs \<Longrightarrow> y \<in> set xs \<Longrightarrow> f x \<le> f y \<Longrightarrow> g x \<le> g y"
  shows "sorted (map g xs)"
  using assms by (induction xs) auto

lemma sorted_keys_same_length:
  assumes "\<And>e. e \<in> set es \<Longrightarrow> length (fst e) = n"
  shows "sorted (map fst (sortEntries es))"
proof (rule sorted_map_mono [where f = entryString])
  show "sorted (map entryString (sortEntries es))"
    by (simp add: sortEntries_def)
next
  fix x y
  assume "x \<in> set (sortEntries es)" and "y \<in> set (sortEntries es)"
    and le: "entryString x \<le> entryString y"
  then have "length (fst x) = length (fst y)"
    using assms by (simp add: sortEntries_def)
  from append_le_same_length [OF this] le show "fst x \<le> fst y"
    by (simp add: entryString_def)
qed

text \<open>Keys without salt, for the years 0 to 9999, have sixteen characters and a hyphen among
  them. For a ledger of such keys the file lists all entries in ascending order of the
  keys.\<close>

lemma export_sorted_same_length:
  assumes "getJSONfile s = Inr (s', content)"
    and "\<And>e. e \<in> set (selectionsByDate s') \<Longrightarrow> length (fst e) = n \<and> \<not> isArrayIndex (fst e)"
  shows "sorted (map fst content)" and "set content = set (selectionsByDate s')"
    and "length content = length (selectionsByDate s')"
proof -
  from assms(1) have c: "content = map (\<lambda>e. (fst e, mapReplacer (snd e)))
      (fromEntries (sortEntries (selectionsByDate s')))"
    by (auto simp: getJSONfile_def split: sum.splits)
  have set: "set (sortEntries (selectionsByDate s')) = set (selectionsByDate s')"
    by (simp add: sortEntries_def)
  have "\<forall>e \<in> set (sortEntries (selectionsByDate s')). \<not> isArrayIndex (fst e)"
    unfolding set using assms(2) by blast
  then have "filter (\<lambda>e. isArrayIndex (fst e)) (sortEntries (selectionsByDate s')) = []"
    and "filter (\<lambda>e. \<not> isArrayIndex (fst e)) (sortEntries (selectionsByDate s'))
      = sortEntries (selectionsByDate s')"
    by (simp_all add: filter_empty_conv filter_id_conv)
  then have f: "fromEntries (sortEntries (selectionsByDate s')) = sortEntries (selectionsByDate s')"
    by (simp add: fromEntries_def)
  have m: "map (\<lambda>e. (fst e, mapReplacer (snd e))) xs = xs" for xs :: "(string \<times> string list) list"
    by (induction xs) (simp_all add: mapReplacer_def)
  have c': "content = sortEntries (selectionsByDate s')"
    unfolding c f by (rule m)
  show "sorted (map fst content)"
    unfolding c' by (rule sorted_keys_same_length [where n = n]) (simp add: assms(2))
  show "set content = set (selectionsByDate s')"
    unfolding c' by (rule set)
  show "length content = length (selectionsByDate s')"
    unfolding c' by (simp add: sortEntries_def)
qed

subsection \<open>Rounding to the nearest double\<close>





lemma pow2_pos [simp]: "(0::rat) < 2 powi a"
  by (simp add: power_int_def)









subsection \<open>Rounding of the y axis\<close>







section \<open>Properties of the zoom history\<close>

subsection \<open>\<open>initVars\<close> of the variable-axis variant empties every stack\<close>






subsection \<open>What the selection methods leave alone\<close>

lemma same_view_refl [simp]: "same_view s s"
  by (simp add: same_view_def)

lemma same_view_trans: "same_view s s1 \<Longrightarrow> same_view s1 s2 \<Longrightarrow> same_view s s2"
  by (simp add: same_view_def)

lemma commit_one_view: "same_view s (commit_one c d s)"
  by (simp add: same_view_def commit_one_def Let_def)

lemma commit_loop_view: "same_view s (commit_loop c ds s)"
proof (induction ds arbitrary: s)
  case Nil
  show ?case by simp
next
  case (Cons d ds)
  from commit_one_view Cons.IH show ?case
    unfolding commit_loop.simps by (rule same_view_trans)
qed

lemma commitSelections_view: "commitSelections c s = Inr s' \<Longrightarrow> same_view s s'"
  by (auto simp: commitSelections_def commit_loop_view split: option.splits)

lemma assign_view: "same_view s (assign ds s)"
  by (simp add: same_view_def assign_def split: sel_ref.splits)

lemma updateClicked_view:
  assumes "updateClicked p r s = Inr s'"
  shows "same_view s s'"
proof -
  from assms obtain k where k: "formatISODate (date p) (salt p) = Inr k"
    by (auto simp: updateClicked_def split: sum.splits)
  from assms k obtain ds where ds: "deref s = Some ds"
    by (auto simp: updateClicked_def split: option.splits)
  show ?thesis
  proof (cases "k \<in> set ds \<and> r")
    case False
    with assms k ds have "commitSelections (previousCompound s) (assign (set_add k ds) s) = Inr s'"
      by (auto simp: updateClicked_def)
    from assign_view commitSelections_view [OF this] show ?thesis by (rule same_view_trans)
  next
    case True
    let ?s1 = "assign (set_delete k ds) s"
    from True assms k ds obtain s3 where c: "commitSelections (previousCompound s3) s3 = Inr s'"
      and v: "same_view ?s1 s3"
      by (auto simp: updateClicked_def Let_def same_view_def split: option.splits if_splits)
    from assign_view v have "same_view s s3" by (rule same_view_trans)
    then show ?thesis using commitSelections_view [OF c] by (rule same_view_trans)
  qed
qed

lemma click_all_view: "click_all ps s = Inr s' \<Longrightarrow> same_view s s'"
proof (induction ps arbitrary: s)
  case Nil
  then show ?case by simp
next
  case (Cons p ps)
  from Cons.prems obtain s1 where 1: "updateClicked p False s = Inr s1"
    and 2: "click_all ps s1 = Inr s'"
    by (auto split: sum.splits)
  from updateClicked_view [OF 1] Cons.IH [OF 2] show ?case by (rule same_view_trans)
qed

lemma createScales_cong:
  assumes "yRound s' = yRound s"
  shows "createScales s' data a b c d = createScales s data a b c d"
  unfolding createScales_def assms by (rule refl)

text \<open>What a render does to the view: it sets the limits that \<open>createScales\<close> returns.\<close>

lemma render_then_view:
  assumes "render_then data a b c d s = Inr s'"
  shows "\<exists>lms. createScales s (map (convert (UTCoffset s)) data) a b c d = Inr lms
           \<and> limits s' = Some lms \<and> same_view (s\<lparr>limits := Some lms\<rparr>) s'"
proof -
  from assms obtain lms where
    cs: "createScales s (map (convert (UTCoffset s)) data) a b c d = Inr lms"
    by (auto simp: render_then_def Let_def split: sum.splits)
  let ?s1 = "s\<lparr>limits := Some lms\<rparr>"
  from assms have "(case deref ?s1 of
        None \<Rightarrow> if filter (inside lms) (map (convert (UTCoffset s)) data) = [] then Inr ?s1
                else Inl TypeError
      | Some ds \<Rightarrow>
          click_all (filter (has_key ds) (filter (inside lms) (map (convert (UTCoffset s)) data)))
            ?s1) = Inr s'"
    by (simp add: render_then_def Let_def cs)
  then have "s' = ?s1 \<or> (\<exists>ps. click_all ps ?s1 = Inr s')"
    by (cases "deref ?s1") (auto split: if_splits)
  then have v: "same_view ?s1 s'"
    by (auto dest: click_all_view)
  then have "limits s' = Some lms" by (simp add: same_view_def)
  with cs v show ?thesis by blast
qed

lemma updateAxes_view:
  assumes "updateAxes fetch a b c d s = Inr s'" and "fetch (selector_value s) = Some data"
  shows "\<exists>lms. createScales s (map (convert (UTCoffset s)) data) a b c d = Inr lms
           \<and> limits s' = Some lms \<and> same_view (s\<lparr>limits := Some lms\<rparr>) s'"
proof -
  from assms(1) obtain s1 where 1: "commitSelections (Some (selector_value s)) s = Inr s1"
    and 2: "render fetch (Some (selector_value s1)) a b c d s1 = Inr s'"
    by (auto simp: updateAxes_def split: sum.splits)
  note v1 = commitSelections_view [OF 1]
  then have sv: "selector_value s1 = selector_value s" by (simp add: same_view_def)
  from 2 obtain s2 where 3: "render_sync (Some (selector_value s1)) s1 = Inr s2"
    and 4: "fetched fetch (Some (selector_value s1)) a b c d s2 = Inr s'"
    by (auto simp: render_def split: sum.splits)
  from 3 have s2: "s2 = s1\<lparr>selectedDates := SetOf (selector_value s1)\<rparr>"
    by (auto simp: render_sync_def split: option.splits)
  then have v2: "same_view s1 s2" by (simp add: same_view_def)
  from v1 v2 have v: "same_view s s2" by (rule same_view_trans)
  from 4 assms(2) sv have "render_then data a b c d s2 = Inr s'"
    by (simp add: fetched_def)
  from render_then_view [OF this] obtain lms where
    cs: "createScales s2 (map (convert (UTCoffset s2)) data) a b c d = Inr lms"
    and l: "limits s' = Some lms" and v3: "same_view (s2\<lparr>limits := Some lms\<rparr>) s'"
    by blast
  from v have yr: "yRound s2 = yRound s" and off: "UTCoffset s2 = UTCoffset s"
    by (simp_all add: same_view_def)
  have "createScales s (map (convert (UTCoffset s)) data) a b c d = Inr lms"
    using cs unfolding off createScales_cong [OF yr] .
  moreover from v v3 have "same_view (s\<lparr>limits := Some lms\<rparr>) s'"
    by (simp add: same_view_def)
  ultimately show ?thesis using l by blast
qed

text \<open>Limits that \<open>createScales\<close> has returned are returned again when they are its
  arguments.\<close>

lemma createScales_again:
  assumes "createScales s data a b c d = Inr lms"
  shows "createScales s data (XDate (xMin lms)) (XDate (xMax lms))
           (YNum (yMin lms)) (YNum (yMax lms)) = Inr lms"
proof -
  obtain x1 x2 y1 y2 where lms: "lms = \<lparr>xMin = x1, xMax = x2, yMin = y1, yMax = y2\<rparr>"
    by (cases lms)
  from assms have x: "x1 \<noteq> None" "x2 \<noteq> None"
    by (auto simp: createScales_def Let_def lms split: if_splits)
  from assms have ymax: "y2 = (if falsy d
      then ceilTo (d3max (map (\<lambda>d. Some (val d)) data)) (yRound s) else number d)"
    and ymin: "y1 = (if falsy c then Some 0 else number c)"
    by (auto simp: createScales_def Let_def lms split: if_splits)
  have f1: "falsy (YNum y2) \<Longrightarrow> falsy d"
    using ymax by (cases d rule: falsy.cases) (auto split: if_splits)
  have f2: "falsy (YNum y1) \<Longrightarrow> y1 = Some 0"
    using ymin by (cases c rule: falsy.cases) (auto split: if_splits)
  have a: "(if falsy (YNum y2)
      then ceilTo (d3max (map (\<lambda>d. Some (val d)) data)) (yRound s) else y2) = y2"
    using f1 ymax by auto
  have b: "(if falsy (YNum y1) then Some 0 else y1) = y1"
    using f2 by auto
  show ?thesis
    using x a b by (auto simp: createScales_def Let_def lms split: if_splits)
qed

subsection \<open>Zoom and undo in the fixed-axis variant\<close>

lemma createScales_eq:
  assumes "yRound s' = yRound s" and "UTCoffset s' = UTCoffset s"
  shows "createScales s' (map (convert (UTCoffset s')) data) a b c d
     = createScales s (map (convert (UTCoffset s)) data) a b c d"
  unfolding assms(2) by (rule createScales_cong [OF assms(1)])

lemma dragEnd_view:
  assumes "dragEnd fetch a b c d s = Inr s'" and "fetch (selector_value s) = Some data"
  shows "\<exists>lms0 lms. limits s = Some lms0 \<and> limits s' = Some lms
           \<and> createScales s (map (convert (UTCoffset s)) data)
                (XDate (fst (zoomX lms0 (xZoomLimit s) a b))) (XDate (snd (zoomX lms0 (xZoomLimit s) a b)))
                (YNum c) (YNum d) = Inr lms
           \<and> same_view (s\<lparr>limits := Some lms, zoomHistory := zoomHistory s @ [lms0]\<rparr>) s'"
proof -
  from assms(1) obtain lms0 where l0: "limits s = Some lms0"
    by (auto simp: dragEnd_def split: option.splits)
  let ?s1 = "s\<lparr>zoomHistory := zoomHistory s @ [lms0]\<rparr>"
  let ?z = "zoomX lms0 (xZoomLimit s) a b"
  from assms(1) l0 have u: "updateAxes fetch (XDate (fst ?z)) (XDate (snd ?z)) (YNum c) (YNum d) ?s1 = Inr s'"
    by (simp add: dragEnd_def Let_def split: prod.splits)
  have f: "fetch (selector_value ?s1) = Some data" using assms(2) by simp
  from updateAxes_view [OF u f] obtain lms where
    cs: "createScales ?s1 (map (convert (UTCoffset ?s1)) data)
           (XDate (fst ?z)) (XDate (snd ?z)) (YNum c) (YNum d) = Inr lms"
    and l: "limits s' = Some lms" and v: "same_view (?s1\<lparr>limits := Some lms\<rparr>) s'"
    by blast
  have "createScales ?s1 (map (convert (UTCoffset ?s1)) data)
           (XDate (fst ?z)) (XDate (snd ?z)) (YNum c) (YNum d)
       = createScales s (map (convert (UTCoffset s)) data)
           (XDate (fst ?z)) (XDate (snd ?z)) (YNum c) (YNum d)"
    by (rule createScales_eq) simp_all
  with cs have "createScales s (map (convert (UTCoffset s)) data)
           (XDate (fst ?z)) (XDate (snd ?z)) (YNum c) (YNum d) = Inr lms"
    by simp
  moreover have "same_view (s\<lparr>limits := Some lms, zoomHistory := zoomHistory s @ [lms0]\<rparr>) s'"
    using v by (simp add: same_view_def)
  ultimately show ?thesis using l0 l by blast
qed

lemma undoZoom_view:
  assumes "undoZoom fetch s = Inr s'" and "zoomHistory s = st @ [old]"
    and "fetch (selector_value s) = Some data"
  shows "\<exists>lms. limits s' = Some lms
           \<and> createScales s (map (convert (UTCoffset s)) data)
                (XDate (xMin old)) (XDate (xMax old)) (YNum (yMin old)) (YNum (yMax old)) = Inr lms
           \<and> same_view (s\<lparr>limits := Some lms, zoomHistory := st\<rparr>) s'"
proof -
  let ?s1 = "s\<lparr>zoomHistory := st\<rparr>"
  from assms(1,2) have u: "updateAxes fetch (XDate (xMin old)) (XDate (xMax old))
      (YNum (yMin old)) (YNum (yMax old)) ?s1 = Inr s'"
    by (simp add: undoZoom_def Let_def)
  have f: "fetch (selector_value ?s1) = Some data" using assms(3) by simp
  from updateAxes_view [OF u f] obtain lms where
    cs: "createScales ?s1 (map (convert (UTCoffset ?s1)) data)
           (XDate (xMin old)) (XDate (xMax old)) (YNum (yMin old)) (YNum (yMax old)) = Inr lms"
    and l: "limits s' = Some lms" and v: "same_view (?s1\<lparr>limits := Some lms\<rparr>) s'"
    by blast
  have "createScales ?s1 (map (convert (UTCoffset ?s1)) data)
           (XDate (xMin old)) (XDate (xMax old)) (YNum (yMin old)) (YNum (yMax old))
       = createScales s (map (convert (UTCoffset s)) data)
           (XDate (xMin old)) (XDate (xMax old)) (YNum (yMin old)) (YNum (yMax old))"
    by (rule createScales_eq) simp_all
  with cs have "createScales s (map (convert (UTCoffset s)) data)
           (XDate (xMin old)) (XDate (xMax old)) (YNum (yMin old)) (YNum (yMax old)) = Inr lms"
    by simp
  moreover have "same_view (s\<lparr>limits := Some lms, zoomHistory := st\<rparr>) s'"
    using v by (simp add: same_view_def)
  ultimately show ?thesis using l by blast
qed

lemma settledD:
  assumes "settled fetch s"
  obtains lms data where "limits s = Some lms" and "fetch (selector_value s) = Some data"
    and "createScales s (map (convert (UTCoffset s)) data)
            (XDate (xMin lms)) (XDate (xMax lms)) (YNum (yMin lms)) (YNum (yMax lms)) = Inr lms"
  using assms by (auto simp: settled_def split: option.splits)

lemma settledI:
  assumes "limits s = Some lms" and "fetch (selector_value s) = Some data"
    and "createScales s (map (convert (UTCoffset s)) data)
            (XDate (xMin lms)) (XDate (xMax lms)) (YNum (yMin lms)) (YNum (yMax lms)) = Inr lms"
  shows "settled fetch s"
  using assms by (simp add: settled_def)

lemma dragEnd_settled:
  assumes "dragEnd fetch a b c d s = Inr s'" and "fetch (selector_value s) = Some data"
  shows "settled fetch s'"
proof -
  from dragEnd_view [OF assms] obtain lms0 lms where l: "limits s' = Some lms"
    and cs: "createScales s (map (convert (UTCoffset s)) data)
                (XDate (fst (zoomX lms0 (xZoomLimit s) a b))) (XDate (snd (zoomX lms0 (xZoomLimit s) a b)))
                (YNum c) (YNum d) = Inr lms"
    and v: "same_view (s\<lparr>limits := Some lms, zoomHistory := zoomHistory s @ [lms0]\<rparr>) s'"
    by blast
  from v have f: "fetch (selector_value s') = Some data"
    using assms(2) by (simp add: same_view_def)
  from v have "yRound s' = yRound s" and "UTCoffset s' = UTCoffset s"
    by (simp_all add: same_view_def)
  then have eq: "createScales s' (map (convert (UTCoffset s')) data) x1 x2 y1 y2
      = createScales s (map (convert (UTCoffset s)) data) x1 x2 y1 y2" for x1 x2 y1 y2
    by (rule createScales_eq)
  show ?thesis
    using l f by (rule settledI) (simp only: eq createScales_again [OF cs])
qed

lemma undos_snoc:
  "undos fetch (Suc n) s =
     (case undos fetch n s of Inl e \<Rightarrow> Inl e | Inr s' \<Rightarrow> undoZoom fetch s')"
proof (induction n arbitrary: s)
  case 0
  show ?case by (simp split: sum.splits)
next
  case (Suc n)
  show ?case
  proof (cases "undoZoom fetch s")
    case (Inl e)
    then show ?thesis by simp
  next
    case (Inr b)
    have 1: "undos fetch (Suc (Suc n)) s = undos fetch (Suc n) b"
      unfolding undos.simps(2) [of fetch "Suc n" s] Inr by simp
    have 2: "undos fetch (Suc n) s = undos fetch n b"
      unfolding undos.simps(2) [of fetch n s] Inr by simp
    show ?thesis unfolding 1 2 by (rule Suc.IH)
  qed
qed

lemma zooms_undos:
  assumes "settled fetch s" and "zooms fetch zs s = Inr s1"
    and "undos fetch (length zs) s1 = Inr s2"
  shows "same_view s s2"
  using assms
proof (induction zs arbitrary: s s1 s2)
  case Nil
  then show ?case by simp
next
  case (Cons z zs)
  obtain a b c d where z: "z = (a, b, c, d)" by (cases z)
  from Cons.prems(1) obtain lms0 data where l0: "limits s = Some lms0"
    and f: "fetch (selector_value s) = Some data"
    and cs0: "createScales s (map (convert (UTCoffset s)) data)
            (XDate (xMin lms0)) (XDate (xMax lms0)) (YNum (yMin lms0)) (YNum (yMax lms0)) = Inr lms0"
    by (rule settledD)
  from Cons.prems(2) obtain sa where d: "dragEnd fetch a b c d s = Inr sa"
    and zs: "zooms fetch zs sa = Inr s1"
    by (auto simp: z split: sum.splits)
  from Cons.prems(3) obtain sb where us: "undos fetch (length zs) s1 = Inr sb"
    and u: "undoZoom fetch sb = Inr s2"
    unfolding length_Cons undos_snoc by (auto split: sum.splits)
  have "settled fetch sa" using d f by (rule dragEnd_settled)
  from Cons.IH [OF this zs us] have vab: "same_view sa sb" .
  from dragEnd_view [OF d f] l0 obtain lms where
    va: "same_view (s\<lparr>limits := Some lms, zoomHistory := zoomHistory s @ [lms0]\<rparr>) sa"
    by auto
  from va vab have vb: "same_view (s\<lparr>limits := Some lms, zoomHistory := zoomHistory s @ [lms0]\<rparr>) sb"
    by (rule same_view_trans)
  then have zb: "zoomHistory sb = zoomHistory s @ [lms0]"
    and fb: "fetch (selector_value sb) = Some data"
    using f by (simp_all add: same_view_def)
  from undoZoom_view [OF u zb fb] obtain lms' where
    cs: "createScales sb (map (convert (UTCoffset sb)) data)
                (XDate (xMin lms0)) (XDate (xMax lms0)) (YNum (yMin lms0)) (YNum (yMax lms0)) = Inr lms'"
    and v2: "same_view (sb\<lparr>limits := Some lms', zoomHistory := zoomHistory s\<rparr>) s2"
    by blast
  from vb have "yRound sb = yRound s" and "UTCoffset sb = UTCoffset s"
    by (simp_all add: same_view_def)
  then have "createScales sb (map (convert (UTCoffset sb)) data)
                (XDate (xMin lms0)) (XDate (xMax lms0)) (YNum (yMin lms0)) (YNum (yMax lms0))
      = createScales s (map (convert (UTCoffset s)) data)
                (XDate (xMin lms0)) (XDate (xMax lms0)) (YNum (yMin lms0)) (YNum (yMax lms0))"
    by (rule createScales_eq)
  with cs cs0 have "lms' = lms0" by simp
  with v2 vb l0 show ?case by (simp add: same_view_def)
qed

subsection \<open>\<open>totalRefresh\<close> of the fixed-axis variant keeps the zoom history\<close>

lemma fetched_zoomHistory:
  "fetched fetch c a b y z s = Inr s' \<Longrightarrow> zoomHistory s' = zoomHistory s"
  by (auto simp: fetched_def same_view_def split: option.splits dest!: render_then_view)

lemma totalRefresh_zoomHistory:
  assumes "totalRefresh fetch s = Inr s'"
  shows "zoomHistory s' = zoomHistory s"
proof -
  from assms obtain s1 where 1: "initVars_sync s = Inr s1"
    by (auto simp: totalRefresh_def split: sum.splits)
  let ?s1 = "s1\<lparr>selector_value := option_value (first_compound s1)\<rparr>"
  from assms 1 obtain s2 where 2: "selectorChange_sync ?s1 = Inr s2"
    by (auto simp: totalRefresh_def split: sum.splits)
  from assms 1 2 obtain s3 where
    3: "fetched fetch (first_compound s2) XNull XNull YNull YNull s2 = Inr s3"
    and 4: "fetched fetch (Some (selector_value s3)) XNull XNull YNull YNull s3 = Inr s'"
    by (auto simp: totalRefresh_def split: sum.splits)
  from 1 have "zoomHistory s1 = zoomHistory s"
    by (auto simp: initVars_sync_def render_sync_def Let_def split: option.splits)
  moreover from 2 have "zoomHistory s2 = zoomHistory ?s1"
    by (auto simp: selectorChange_sync_def render_sync_def Let_def same_view_def
        split: sum.splits option.splits dest!: commitSelections_view)
  ultimately show ?thesis
    using fetched_zoomHistory [OF 3] fetched_zoomHistory [OF 4] by simp
qed

subsection \<open>Zoom and undo in the variable-axis variant\<close>

lemma vsame_refl [simp]: "vsame s s"
  by (simp add: vsame_def)

lemma vsame_trans: "vsame s s1 \<Longrightarrow> vsame s1 s2 \<Longrightarrow> vsame s s2"
  by (simp add: vsame_def)

lemma vsame_core: "same_view c c' \<Longrightarrow> core s = c \<Longrightarrow> vsame s (s\<lparr>core := c'\<rparr>)"
  by (simp add: vsame_def same_view_def)

lemma vcreateScales_eq:
  "vcreateScales s data a b c d =
     (case limitStack s of
        None \<Rightarrow> Inl TypeError
      | Some st \<Rightarrow>
          (case vlimits (dataXDefault s) (dataYDefault s) data st a b c d of
             Inl e \<Rightarrow> Inl e
           | Inr lms \<Rightarrow> Inr (setLimitStack (pushed st lms) s, lms)))"
  unfolding vcreateScales_def vlimits_def pushed_def
  by (simp add: Let_def split: option.splits sum.splits prod.splits)

lemma limitStack_setLimitStack:
  "limitStack s = Some st \<Longrightarrow> limitStack (setLimitStack st' s) = Some st'"
  by (auto simp: limitStack_def setLimitStack_def update_conv' split: option.splits)

lemma setLimitStack_same [simp]:
  "vsame s (setLimitStack st s)" "core (setLimitStack st s) = core s"
  by (simp_all add: vsame_def setLimitStack_def split: option.splits)

lemma limitStack_cong:
  assumes "previousCompound (core s') = previousCompound (core s)"
    and "zoomHistoryMap s' = zoomHistoryMap s"
    and "dataXDefault s' = dataXDefault s" and "dataYDefault s' = dataYDefault s"
  shows "limitStack s' = limitStack s"
  unfolding limitStack_def assms by (rule refl)

lemma limitStack_core:
  "previousCompound c = previousCompound (core s) \<Longrightarrow> limitStack (s\<lparr>core := c\<rparr>) = limitStack s"
  by (rule limitStack_cong) simp_all


lemma vupdateClicked_same:
  assumes "vupdateClicked p r s = Inr s'"
  shows "vsame s s' \<and> zoomHistoryMap s' = zoomHistoryMap s \<and> limits (core s') = limits (core s)"
proof -
  from assms obtain t c where "updateClicked \<lparr>date = t, val = 0, salt = None\<rparr> r (core s) = Inr c"
    and s': "s' = s\<lparr>core := c\<rparr>"
    by (auto simp: vupdateClicked_def split: option.splits sum.splits)
  from updateClicked_view [OF this(1)] show ?thesis
    by (simp add: s' vsame_def same_view_def)
qed

lemma vclick_all_same:
  "vclick_all ps s = Inr s' \<Longrightarrow>
     vsame s s' \<and> zoomHistoryMap s' = zoomHistoryMap s \<and> limits (core s') = limits (core s)"
proof (induction ps arbitrary: s)
  case Nil
  then show ?case by simp
next
  case (Cons p ps)
  from Cons.prems obtain s1 where 1: "vupdateClicked p False s = Inr s1"
    and 2: "vclick_all ps s1 = Inr s'"
    by (auto split: sum.splits)
  from vupdateClicked_same [OF 1] Cons.IH [OF 2] show ?case
    by (auto intro: vsame_trans)
qed

text \<open>What a render does to the view: it sets the limits that \<open>createScales\<close> computes over
  the stack, and pushes them unless they equal the top.\<close>

lemma vrender_then_view:
  assumes "vrender_then data0 a b c d s = Inr s'" and "limitStack s = Some st"
  shows "\<exists>lms. vlimits (dataXDefault s) (dataYDefault s)
                  (map (vconvert (xOptions s) (UTCoffset (core s))) data0) st a b c d = Inr lms
           \<and> limits (core s') = Some lms \<and> limitStack s' = Some (pushed st lms) \<and> vsame s s'"
proof -
  let ?data = "map (vconvert (xOptions s) (UTCoffset (core s))) data0"
  from assms obtain lms where
    vl: "vlimits (dataXDefault s) (dataYDefault s) ?data st a b c d = Inr lms"
    by (auto simp: vrender_then_def vcreateScales_eq Let_def split: sum.splits)
  let ?s0 = "setLimitStack (pushed st lms) s"
  let ?s1 = "?s0\<lparr>core := (core ?s0)\<lparr>limits := Some lms\<rparr>\<rparr>"
  have cs: "vcreateScales s ?data a b c d = Inr (?s0, lms)"
    by (simp add: vcreateScales_eq assms(2) vl)
  from assms(1) have "(case deref (core ?s1) of
        None \<Rightarrow> if filter (vinside ?s1 lms) ?data = [] then Inr ?s1 else Inl TypeError
      | Some ds \<Rightarrow>
          (case vselected ?s1 ds (filter (vinside ?s1 lms) ?data) of
             Inl e \<Rightarrow> Inl e
           | Inr ps \<Rightarrow> vclick_all ps ?s1)) = Inr s'"
    by (simp add: vrender_then_def Let_def cs)
  then have "s' = ?s1 \<or> (\<exists>ps. vclick_all ps ?s1 = Inr s')"
    by (cases "deref (core ?s1)") (auto split: if_splits sum.splits)
  then have r: "vsame ?s1 s' \<and> zoomHistoryMap s' = zoomHistoryMap ?s1
      \<and> limits (core s') = limits (core ?s1)"
    by (auto dest: vclick_all_same)
  have "limitStack ?s1 = limitStack ?s0"
    by (rule limitStack_cong) simp_all
  then have ls1: "limitStack ?s1 = Some (pushed st lms)"
    using limitStack_setLimitStack [OF assms(2), of "pushed st lms"] by simp
  from r have "limitStack s' = limitStack ?s1"
    by (intro limitStack_cong) (simp_all add: vsame_def)
  moreover have "vsame s ?s1"
    by (simp add: vsame_def setLimitStack_def split: option.splits)
  ultimately show ?thesis using vl r ls1 by (auto intro: vsame_trans)
qed

lemma vupdateAxes_view:
  assumes "vupdateAxes fetch a b c d s = Inr s'" and "limitStack s = Some st"
    and "fetch (selector_value (core s)) = Some data0"
  shows "\<exists>lms. vlimits (dataXDefault s) (dataYDefault s)
                  (map (vconvert (xOptions s) (UTCoffset (core s))) data0) st a b c d = Inr lms
           \<and> limits (core s') = Some lms \<and> limitStack s' = Some (pushed st lms) \<and> vsame s s'"
proof -
  from assms(1) obtain c1 where 1: "commitSelections (Some (selector_value (core s))) (core s) = Inr c1"
    and 2: "vrender fetch (Some (selector_value c1)) a b c d (s\<lparr>core := c1\<rparr>) = Inr s'"
    by (auto simp: vupdateAxes_def split: sum.splits)
  note v1 = commitSelections_view [OF 1]
  from 2 obtain c2 where 3: "render_sync (Some (selector_value c1)) c1 = Inr c2"
    and 4: "vfetched fetch (Some (selector_value c1)) a b c d (s\<lparr>core := c2\<rparr>) = Inr s'"
    by (auto simp: vrender_def vrender_sync_def split: sum.splits)
  from 3 have "c2 = c1\<lparr>selectedDates := SetOf (selector_value c1)\<rparr>"
    by (auto simp: render_sync_def split: option.splits)
  then have "same_view c1 c2" by (simp add: same_view_def)
  with v1 have v: "same_view (core s) c2" by (rule same_view_trans)
  let ?s2 = "s\<lparr>core := c2\<rparr>"
  have vs: "vsame s ?s2" using v by (simp add: vsame_def same_view_def)
  have "limitStack ?s2 = limitStack s"
    by (rule limitStack_core) (use v in \<open>simp add: same_view_def\<close>)
  then have ls: "limitStack ?s2 = Some st"
    using assms(2) by simp
  from v1 have "selector_value c1 = selector_value (core s)" by (simp add: same_view_def)
  with 4 assms(3) have "vrender_then data0 a b c d ?s2 = Inr s'"
    by (simp add: vfetched_def)
  from vrender_then_view [OF this ls] obtain lms where
    "vlimits (dataXDefault ?s2) (dataYDefault ?s2)
        (map (vconvert (xOptions ?s2) (UTCoffset (core ?s2))) data0) st a b c d = Inr lms"
    and "limits (core s') = Some lms" and "limitStack s' = Some (pushed st lms)"
    and "vsame ?s2 s'"
    by blast
  moreover have "UTCoffset c2 = UTCoffset (core s)" using v by (simp add: same_view_def)
  ultimately show ?thesis using vs by (auto intro: vsame_trans)
qed

lemma d3max_None: "d3max xs = None \<longleftrightarrow> (\<forall>x \<in> set xs. x = None)"
  by (induction xs rule: d3max.induct) (auto split: option.splits)

lemma d3min_None: "d3min xs = None \<longleftrightarrow> (\<forall>x \<in> set xs. x = None)"
  by (induction xs rule: d3min.induct) (auto split: option.splits)

lemma areLimitsEqual_eq: "areLimitsEqual l1 l2 \<Longrightarrow> l1 = l2"
  by (cases l1, cases l2) (simp add: areLimitsEqual_def js_eq_def)

lemma areLimitsEqual_refl:
  "xMin l \<noteq> None \<Longrightarrow> xMax l \<noteq> None \<Longrightarrow> yMin l \<noteq> None \<Longrightarrow> yMax l \<noteq> None
     \<Longrightarrow> areLimitsEqual l l"
  by (simp add: areLimitsEqual_def js_eq_def)

lemma processAxisX_again:
  assumes "processAxisX data xa a b = Inr (x1, x2)"
  shows "processAxisX data xa (XDate x1) (XDate x2) = Inr (x1, x2)"
    and "x1 \<noteq> None" and "x2 \<noteq> None"
  using assms by (auto simp: processAxisX_def Let_def split: if_splits)

lemma processAxisY_again:
  assumes "processAxisY data ya a b = (y1, y2)"
  shows "processAxisY data ya (YNum y1) (YNum y2) = (y1, y2)"
proof -
  from assms have y2: "y2 = (if falsy b then ceilTo (d3max (map (yattr ya) data)) 1 else number b)"
    and y1: "y1 = (if falsy a then floorTo (d3min (map (yattr ya) data)) 1 else number a)"
    by (simp_all add: processAxisY_def Let_def)
  have f2: "falsy (YNum y2) \<Longrightarrow> falsy b"
    using y2 by (cases b rule: falsy.cases) (auto split: if_splits)
  have f1: "falsy (YNum y1) \<Longrightarrow> falsy a"
    using y1 by (cases a rule: falsy.cases) (auto split: if_splits)
  have "(if falsy (YNum y2) then ceilTo (d3max (map (yattr ya) data)) 1 else y2) = y2"
    using f2 y2 by auto
  moreover have "(if falsy (YNum y1) then floorTo (d3min (map (yattr ya) data)) 1 else y1) = y1"
    using f1 y1 by auto
  ultimately show ?thesis
    by (auto simp: processAxisY_def Let_def split: if_splits)
qed

lemma processAxisY_numbers:
  assumes "processAxisY data ya a b = (y1, y2)" and "d3max (map (yattr ya) data) \<noteq> None"
  shows "y1 \<noteq> None \<and> y2 \<noteq> None"
proof -
  from assms(2) have "d3min (map (yattr ya) data) \<noteq> None"
    by (simp add: d3max_None d3min_None)
  with assms(2) obtain m n where m: "d3max (map (yattr ya) data) = Some m"
    and n: "d3min (map (yattr ya) data) = Some n" by auto
  have "\<not> falsy b \<Longrightarrow> number b \<noteq> None" by (cases b rule: falsy.cases) auto
  moreover have "\<not> falsy a \<Longrightarrow> number a \<noteq> None" by (cases a rule: falsy.cases) auto
  ultimately show ?thesis
    using assms(1) by (auto simp: processAxisY_def Let_def m n ceilTo_def floorTo_def)
qed

lemma vlimits_given:
  "vlimits xa ya data st (XDate a) (XDate b) (YNum c) (YNum d) =
     (case processAxisX data xa (XDate a) (XDate b) of
        Inl e \<Rightarrow> Inl e
      | Inr (x1, x2) \<Rightarrow>
          Inr \<lparr>xMin = x1, xMax = x2,
               yMin = fst (processAxisY data ya (YNum c) (YNum d)),
               yMax = snd (processAxisY data ya (YNum c) (YNum d))\<rparr>)"
  by (simp add: vlimits_def split: sum.splits prod.splits)

lemma vlimits_peek:
  "st \<noteq> [] \<Longrightarrow> vlimits xa ya data st XNull XNull YNull YNull =
     vlimits xa ya data st (XDate (xMin (last st))) (XDate (xMax (last st)))
       (YNum (yMin (last st))) (YNum (yMax (last st)))"
  by (simp add: vlimits_def)

text \<open>Limits that \<open>createScales\<close> computes from given bounds come out again when they are
  the bounds given, and their y bounds are numbers when the data have values.\<close>

lemma vlimits_again:
  assumes "vlimits xa ya data st (XDate a) (XDate b) (YNum c) (YNum d) = Inr lms"
  shows "processAxisX data xa (XDate (xMin lms)) (XDate (xMax lms)) = Inr (xMin lms, xMax lms)"
    and "processAxisY data ya (YNum (yMin lms)) (YNum (yMax lms)) = (yMin lms, yMax lms)"
    and "d3max (map (yattr ya) data) \<noteq> None \<Longrightarrow> yMin lms \<noteq> None \<and> yMax lms \<noteq> None"
proof -
  from assms obtain x1 x2 where x: "processAxisX data xa (XDate a) (XDate b) = Inr (x1, x2)"
    by (auto simp: vlimits_given split: sum.splits)
  obtain y1 y2 where y: "processAxisY data ya (YNum c) (YNum d) = (y1, y2)"
    by (cases "processAxisY data ya (YNum c) (YNum d)")
  from assms x y have lms: "lms = \<lparr>xMin = x1, xMax = x2, yMin = y1, yMax = y2\<rparr>"
    by (simp add: vlimits_given)
  show "processAxisX data xa (XDate (xMin lms)) (XDate (xMax lms)) = Inr (xMin lms, xMax lms)"
    using processAxisX_again(1) [OF x] by (simp add: lms)
  show "processAxisY data ya (YNum (yMin lms)) (YNum (yMax lms)) = (yMin lms, yMax lms)"
    using processAxisY_again [OF y] by (simp add: lms)
  show "d3max (map (yattr ya) data) \<noteq> None \<Longrightarrow> yMin lms \<noteq> None \<and> yMax lms \<noteq> None"
    using processAxisY_numbers [OF y] by (simp add: lms)
qed

lemma vlimits_settled:
  assumes "processAxisX data xa (XDate (xMin l)) (XDate (xMax l)) = Inr (xMin l, xMax l)"
    and "processAxisY data ya (YNum (yMin l)) (YNum (yMax l)) = (yMin l, yMax l)"
  shows "vlimits xa ya data st (XDate (xMin l)) (XDate (xMax l)) (YNum (yMin l)) (YNum (yMax l))
           = Inr l"
  by (cases l) (use assms in \<open>simp add: vlimits_given\<close>)

lemma vsettledE:
  assumes "vsettled fetch s"
  obtains st data0 where "limitStack s = Some st" and "fetch (selector_value (core s)) = Some data0"
    and "previousCompound (core s) = Some (selector_value (core s))"
    and "d3max (map (yattr (dataYDefault s))
            (map (vconvert (xOptions s) (UTCoffset (core s))) data0)) \<noteq> None"
    and "st \<noteq> []" and "limits (core s) = Some (last st)"
    and "yMin (last st) \<noteq> None" and "yMax (last st) \<noteq> None"
    and "processAxisX (map (vconvert (xOptions s) (UTCoffset (core s))) data0) (dataXDefault s)
           (XDate (xMin (last st))) (XDate (xMax (last st))) = Inr (xMin (last st), xMax (last st))"
    and "processAxisY (map (vconvert (xOptions s) (UTCoffset (core s))) data0) (dataYDefault s)
           (YNum (yMin (last st))) (YNum (yMax (last st))) = (yMin (last st), yMax (last st))"
  using assms by (auto simp: vsettled_def Let_def split: option.splits)

lemma vsettledI:
  assumes "limitStack s = Some st" and "fetch (selector_value (core s)) = Some data0"
    and "previousCompound (core s) = Some (selector_value (core s))"
    and "d3max (map (yattr (dataYDefault s))
            (map (vconvert (xOptions s) (UTCoffset (core s))) data0)) \<noteq> None"
    and "st \<noteq> []" and "limits (core s) = Some (last st)"
    and "yMin (last st) \<noteq> None" and "yMax (last st) \<noteq> None"
    and "processAxisX (map (vconvert (xOptions s) (UTCoffset (core s))) data0) (dataXDefault s)
           (XDate (xMin (last st))) (XDate (xMax (last st))) = Inr (xMin (last st), xMax (last st))"
    and "processAxisY (map (vconvert (xOptions s) (UTCoffset (core s))) data0) (dataYDefault s)
           (YNum (yMin (last st))) (YNum (yMax (last st))) = (yMin (last st), yMax (last st))"
  shows "vsettled fetch s"
  using assms by (simp add: vsettled_def Let_def)

text \<open>A zoom that changes the limits pushes them, and the state is settled again.\<close>

lemma vzoom_step:
  assumes "vsettled fetch s" and "vdragEnd fetch a b c d s = Inr s'"
    and "limits (core s') \<noteq> limits (core s)"
  shows "vsettled fetch s'"
    and "\<exists>st lms. limitStack s = Some st \<and> limitStack s' = Some (st @ [lms])"
    and "vsame s s'"
proof -
  from assms(1) obtain st data0 where st: "limitStack s = Some st"
    and f: "fetch (selector_value (core s)) = Some data0"
    and pc: "previousCompound (core s) = Some (selector_value (core s))"
    and dm: "d3max (map (yattr (dataYDefault s))
            (map (vconvert (xOptions s) (UTCoffset (core s))) data0)) \<noteq> None"
    and ne: "st \<noteq> []" and l: "limits (core s) = Some (last st)"
    by (rule vsettledE)
  let ?data = "map (vconvert (xOptions s) (UTCoffset (core s))) data0"
  let ?z = "zoomX (last st) (xZoomLimit (core s)) a b"
  from assms(2) l have u: "vupdateAxes fetch (XDate (fst ?z)) (XDate (snd ?z)) (YNum c) (YNum d) s = Inr s'"
    by (simp add: vdragEnd_def Let_def split: prod.splits)
  from vupdateAxes_view [OF u st f] obtain lms where
    vl: "vlimits (dataXDefault s) (dataYDefault s) ?data st
           (XDate (fst ?z)) (XDate (snd ?z)) (YNum c) (YNum d) = Inr lms"
    and l': "limits (core s') = Some lms" and st': "limitStack s' = Some (pushed st lms)"
    and v: "vsame s s'"
    by blast
  from assms(3) l l' have "lms \<noteq> last st" by auto
  then have "\<not> areLimitsEqual lms (last st)" by (auto dest: areLimitsEqual_eq)
  then have p: "pushed st lms = st @ [lms]" by (simp add: pushed_def)
  show "vsame s s'" by (rule v)
  show "\<exists>st lms. limitStack s = Some st \<and> limitStack s' = Some (st @ [lms])"
    using st st' p by auto
  from v have eq: "xOptions s' = xOptions s" "UTCoffset (core s') = UTCoffset (core s)"
    "dataXDefault s' = dataXDefault s" "dataYDefault s' = dataYDefault s"
    "selector_value (core s') = selector_value (core s)"
    "previousCompound (core s') = previousCompound (core s)"
    by (simp_all add: vsame_def)
  show "vsettled fetch s'"
  proof (rule vsettledI [where st = "st @ [lms]" and ?data0.0 = data0])
    show "limitStack s' = Some (st @ [lms])" using st' p by simp
    show "fetch (selector_value (core s')) = Some data0" using f eq by simp
    show "previousCompound (core s') = Some (selector_value (core s'))" using pc eq by simp
    show "d3max (map (yattr (dataYDefault s'))
            (map (vconvert (xOptions s') (UTCoffset (core s'))) data0)) \<noteq> None"
      using dm eq by simp
    show "st @ [lms] \<noteq> []" by simp
    show "limits (core s') = Some (last (st @ [lms]))" using l' by simp
    show "yMin (last (st @ [lms])) \<noteq> None" "yMax (last (st @ [lms])) \<noteq> None"
      using vlimits_again(3) [OF vl dm] by simp_all
    show "processAxisX (map (vconvert (xOptions s') (UTCoffset (core s'))) data0) (dataXDefault s')
           (XDate (xMin (last (st @ [lms])))) (XDate (xMax (last (st @ [lms]))))
          = Inr (xMin (last (st @ [lms])), xMax (last (st @ [lms])))"
      using vlimits_again(1) [OF vl] eq by simp
    show "processAxisY (map (vconvert (xOptions s') (UTCoffset (core s'))) data0) (dataYDefault s')
           (YNum (yMin (last (st @ [lms])))) (YNum (yMax (last (st @ [lms]))))
          = (yMin (last (st @ [lms])), yMax (last (st @ [lms])))"
      using vlimits_again(2) [OF vl] eq by simp
  qed
qed

text \<open>An undo on a stack with a settled entry below the top shows that entry again.\<close>

lemma vundo_step:
  assumes "vsettled fetch s" and "limitStack s = Some st" and "vsame s sb"
    and "limitStack sb = Some (st @ [l0])" and "vundoZoom fetch sb = Inr s2"
  shows "limitStack s2 = Some st" and "limits (core s2) = limits (core s)" and "vsame s s2"
proof -
  from assms(1,2) obtain data0 where
    f: "fetch (selector_value (core s)) = Some data0"
    and ne: "st \<noteq> []" and l: "limits (core s) = Some (last st)"
    and y: "yMin (last st) \<noteq> None" "yMax (last st) \<noteq> None"
    and px: "processAxisX (map (vconvert (xOptions s) (UTCoffset (core s))) data0) (dataXDefault s)
           (XDate (xMin (last st))) (XDate (xMax (last st))) = Inr (xMin (last st), xMax (last st))"
    and py: "processAxisY (map (vconvert (xOptions s) (UTCoffset (core s))) data0) (dataYDefault s)
           (YNum (yMin (last st))) (YNum (yMax (last st))) = (yMin (last st), yMax (last st))"
    by (auto elim!: vsettledE)
  from assms(3) have eq: "xOptions sb = xOptions s" "UTCoffset (core sb) = UTCoffset (core s)"
    "dataXDefault sb = dataXDefault s" "dataYDefault sb = dataYDefault s"
    "selector_value (core sb) = selector_value (core s)"
    by (simp_all add: vsame_def)
  let ?sb = "setLimitStack st sb"
  from assms(4,5) have u: "vupdateAxes fetch XNull XNull YNull YNull ?sb = Inr s2"
    by (simp add: vundoZoom_def)
  have ls: "limitStack ?sb = Some st"
    using assms(4) by (rule limitStack_setLimitStack)
  have fb: "fetch (selector_value (core ?sb)) = Some data0"
    using f eq by simp
  from vupdateAxes_view [OF u ls fb] obtain lms where
    vl: "vlimits (dataXDefault ?sb) (dataYDefault ?sb)
           (map (vconvert (xOptions ?sb) (UTCoffset (core ?sb))) data0) st
           XNull XNull YNull YNull = Inr lms"
    and l2: "limits (core s2) = Some lms" and st2: "limitStack s2 = Some (pushed st lms)"
    and v: "vsame ?sb s2"
    by blast
  have vb: "vsame sb ?sb" by simp
  then have eqb: "xOptions ?sb = xOptions sb" "dataXDefault ?sb = dataXDefault sb"
    "dataYDefault ?sb = dataYDefault sb"
    by (simp_all add: vsame_def)
  have "vlimits (dataXDefault s) (dataYDefault s)
           (map (vconvert (xOptions s) (UTCoffset (core s))) data0) st
           XNull XNull YNull YNull = Inr (last st)"
    unfolding vlimits_peek [OF ne] using px py by (rule vlimits_settled)
  with vl have lms: "lms = last st"
    by (simp add: eqb eq)
  from px have "xMin (last st) \<noteq> None" "xMax (last st) \<noteq> None"
    by (auto dest: processAxisX_again(2,3))
  with y have "areLimitsEqual (last st) (last st)" by (intro areLimitsEqual_refl)
  with ne have "pushed st (last st) = st" by (simp add: pushed_def)
  with st2 lms show "limitStack s2 = Some st" by simp
  from l2 lms l show "limits (core s2) = limits (core s)" by simp
  from assms(3) vb v show "vsame s s2" by (blast intro: vsame_trans)
qed

lemma vundos_snoc:
  "vundos fetch (Suc n) s =
     (case vundos fetch n s of Inl e \<Rightarrow> Inl e | Inr s' \<Rightarrow> vundoZoom fetch s')"
proof (induction n arbitrary: s)
  case 0
  show ?case by (simp split: sum.splits)
next
  case (Suc n)
  show ?case
  proof (cases "vundoZoom fetch s")
    case (Inl e)
    then show ?thesis by simp
  next
    case (Inr b)
    have 1: "vundos fetch (Suc (Suc n)) s = vundos fetch (Suc n) b"
      unfolding vundos.simps(2) [of fetch "Suc n" s] Inr by simp
    have 2: "vundos fetch (Suc n) s = vundos fetch n b"
      unfolding vundos.simps(2) [of fetch n s] Inr by simp
    show ?thesis unfolding 1 2 by (rule Suc.IH)
  qed
qed

lemma vzooms_vundos:
  assumes "vsettled fetch s" and "distinctZooms fetch zs s" and "vzooms fetch zs s = Inr s1"
    and "vundos fetch (length zs) s1 = Inr s2"
  shows "limitStack s2 = limitStack s \<and> limits (core s2) = limits (core s) \<and> vsame s s2"
  using assms
proof (induction zs arbitrary: s s1 s2)
  case Nil
  then show ?case by simp
next
  case (Cons z zs)
  obtain a b c d where z: "z = (a, b, c, d)" by (cases z)
  from Cons.prems(2) obtain sa where d: "vdragEnd fetch a b c d s = Inr sa"
    and ch: "limits (core sa) \<noteq> limits (core s)" and dz: "distinctZooms fetch zs sa"
    by (auto simp: z split: sum.splits)
  from Cons.prems(3) d have zs: "vzooms fetch zs sa = Inr s1"
    by (simp add: z)
  from Cons.prems(4) obtain sb where us: "vundos fetch (length zs) s1 = Inr sb"
    and u: "vundoZoom fetch sb = Inr s2"
    unfolding length_Cons vundos_snoc by (auto split: sum.splits)
  note step = vzoom_step [OF Cons.prems(1) d ch]
  from step(2) obtain st lms where st: "limitStack s = Some st"
    and sta: "limitStack sa = Some (st @ [lms])" by blast
  from Cons.IH [OF step(1) dz zs us] have stb: "limitStack sb = limitStack sa"
    and vab: "vsame sa sb" by simp_all
  from step(3) vab have vb: "vsame s sb" by (rule vsame_trans)
  from stb sta have "limitStack sb = Some (st @ [lms])" by simp
  from vundo_step [OF Cons.prems(1) st vb this u] st show ?case by simp
qed

subsection \<open>No repeated entry in the variable-axis variant\<close>








lemma stacksOK_core [simp]: "stacksOK fetch (s\<lparr>core := c\<rparr>) = stacksOK fetch s"
  by (simp add: stacksOK_def)

lemma stacksOK_xattr [simp]: "stacksOK fetch (s\<lparr>dataXDefault := k\<rparr>) = stacksOK fetch s"
  by (simp add: stacksOK_def)
























section \<open>The zoom width floor\<close>

lemma zoomX_narrow:
  assumes "\<not> js_lt (Some a) (xMin lms)" and "\<not> js_lt (xMax lms) (Some b)"
    and "of_int (b - a) < zoomLimit"
  shows "zoomX lms zoomLimit (Some a) (Some b) =
           (newDate ((of_int a + of_int b) / 2 - zoomLimit / 2),
            newDate ((of_int a + of_int b) / 2 + zoomLimit / 2))"
  using assms by (simp add: zoomX_def Let_def add.commute)

lemma toInteger_of_int [simp]: "toInteger (of_int n) = n"
  by (simp add: toInteger_def)

lemma toInteger_near: "\<bar>of_int (toInteger x) - x\<bar> < 1"
  unfolding toInteger_def by (auto simp: abs_if) linarith+

lemma createScales_x:
  "createScales s data (XDate a) (XDate b) c d = Inr lms \<Longrightarrow> xMin lms = a \<and> xMax lms = b"
  by (auto simp: createScales_def Let_def split: if_splits)

lemma vlimits_x:
  "vlimits xa ya data st (XDate a) (XDate b) (YNum c) (YNum d) = Inr lms
     \<Longrightarrow> xMin lms = a \<and> xMax lms = b"
  by (auto simp: vlimits_given processAxisX_def Let_def split: if_splits sum.splits)

text \<open>
  Claim C7, as amended. Let the converted x range from \<open>a\<close> to \<open>b\<close> of a shift-drag zoom lie
  within the current limits and be narrower than the minimum zoom width \<open>L\<close>, and let \<open>m\<close> be
  its midpoint \<open>(a + b) / 2\<close>. Then the x range of the zoom is from \<open>new Date(m - L / 2)\<close> to
  \<open>new Date(m + L / 2)\<close>, in \<open>dragEnd\<close> of both variants, and these are the x limits in force
  after it. A \<open>Date\<close> holds whole milliseconds: when \<open>m - L / 2\<close> and \<open>m + L / 2\<close> are whole
  numbers (and dates), the range has the width \<open>L\<close> exactly and is centred on \<open>m\<close>; otherwise
  each bound is the whole number next to \<open>m - L / 2\<close> or \<open>m + L / 2\<close> toward zero, less than a
  millisecond away.
\<close>

theorem zoom_width_floor:
  assumes "\<not> js_lt (Some a) (xMin lms)" and "\<not> js_lt (xMax lms) (Some b)"
    and "of_int (b - a) < L"
    and "m = (of_int a + of_int b) / 2"
  shows "zoomX lms L (Some a) (Some b) = (newDate (m - L / 2), newDate (m + L / 2))
    \<and> (\<bar>m - L / 2\<bar> \<le> 8640000000000000 \<and> \<bar>m + L / 2\<bar> \<le> 8640000000000000 \<longrightarrow>
           (\<exists>lo hi. zoomX lms L (Some a) (Some b) = (Some lo, Some hi)
              \<and> \<bar>of_int lo - (m - L / 2)\<bar> < 1 \<and> \<bar>of_int hi - (m + L / 2)\<bar> < 1
              \<and> (m - L / 2 = of_int lo \<and> m + L / 2 = of_int hi \<longrightarrow>
                    of_int (hi - lo) = L \<and> (of_int lo + of_int hi) / 2 = m)))
    \<and> (limits s = Some lms \<and> xZoomLimit s = L \<and> fetch (selector_value s) = Some data
           \<and> dragEnd fetch (Some a) (Some b) c d s = Inr s' \<longrightarrow>
           (\<exists>lms'. limits s' = Some lms' \<and> xMin lms' = newDate (m - L / 2)
              \<and> xMax lms' = newDate (m + L / 2)))
    \<and> (limits (core v) = Some lms \<and> xZoomLimit (core v) = L \<and> limitStack v = Some st
           \<and> vfetch (selector_value (core v)) = Some vdata
           \<and> vdragEnd vfetch (Some a) (Some b) c d v = Inr v' \<longrightarrow>
           (\<exists>lms'. limits (core v') = Some lms' \<and> xMin lms' = newDate (m - L / 2)
              \<and> xMax lms' = newDate (m + L / 2)))"
proof (intro conjI)
  show z: "zoomX lms L (Some a) (Some b) = (newDate (m - L / 2), newDate (m + L / 2))"
    unfolding assms(4) using assms(1-3) by (rule zoomX_narrow)
  show "\<bar>m - L / 2\<bar> \<le> 8640000000000000 \<and> \<bar>m + L / 2\<bar> \<le> 8640000000000000 \<longrightarrow>
           (\<exists>lo hi. zoomX lms L (Some a) (Some b) = (Some lo, Some hi)
              \<and> \<bar>of_int lo - (m - L / 2)\<bar> < 1 \<and> \<bar>of_int hi - (m + L / 2)\<bar> < 1
              \<and> (m - L / 2 = of_int lo \<and> m + L / 2 = of_int hi \<longrightarrow>
                    of_int (hi - lo) = L \<and> (of_int lo + of_int hi) / 2 = m))"
  proof
    assume r: "\<bar>m - L / 2\<bar> \<le> 8640000000000000 \<and> \<bar>m + L / 2\<bar> \<le> 8640000000000000"
    let ?lo = "toInteger (m - L / 2)" and ?hi = "toInteger (m + L / 2)"
    have "zoomX lms L (Some a) (Some b) = (Some ?lo, Some ?hi)"
      using r by (simp add: z newDate_def)
    moreover have "\<bar>of_int ?lo - (m - L / 2)\<bar> < 1" "\<bar>of_int ?hi - (m + L / 2)\<bar> < 1"
      by (rule toInteger_near)+
    moreover have "m - L / 2 = of_int ?lo \<and> m + L / 2 = of_int ?hi \<longrightarrow>
        of_int (?hi - ?lo) = L \<and> (of_int ?lo + of_int ?hi) / 2 = m"
    proof
      assume "m - L / 2 = of_int ?lo \<and> m + L / 2 = of_int ?hi"
      then have e: "(of_int ?lo :: rat) = m - L / 2" "(of_int ?hi :: rat) = m + L / 2" by simp_all
      have "(of_int (?hi - ?lo) :: rat) = of_int ?hi - of_int ?lo" by simp
      also have "\<dots> = L" unfolding e by simp
      finally have 1: "(of_int (?hi - ?lo) :: rat) = L" .
      have 2: "((of_int ?lo :: rat) + of_int ?hi) / 2 = m" unfolding e by simp
      from 1 2 show "of_int (?hi - ?lo) = L \<and> (of_int ?lo + of_int ?hi) / 2 = m" ..
    qed
    ultimately show "\<exists>lo hi. zoomX lms L (Some a) (Some b) = (Some lo, Some hi)
              \<and> \<bar>of_int lo - (m - L / 2)\<bar> < 1 \<and> \<bar>of_int hi - (m + L / 2)\<bar> < 1
              \<and> (m - L / 2 = of_int lo \<and> m + L / 2 = of_int hi \<longrightarrow>
                    of_int (hi - lo) = L \<and> (of_int lo + of_int hi) / 2 = m)"
      by blast
  qed
  show "limits s = Some lms \<and> xZoomLimit s = L \<and> fetch (selector_value s) = Some data
           \<and> dragEnd fetch (Some a) (Some b) c d s = Inr s' \<longrightarrow>
           (\<exists>lms'. limits s' = Some lms' \<and> xMin lms' = newDate (m - L / 2)
              \<and> xMax lms' = newDate (m + L / 2))"
  proof
    assume h: "limits s = Some lms \<and> xZoomLimit s = L \<and> fetch (selector_value s) = Some data
           \<and> dragEnd fetch (Some a) (Some b) c d s = Inr s'"
    then have d: "dragEnd fetch (Some a) (Some b) c d s = Inr s'"
      and f: "fetch (selector_value s) = Some data" by simp_all
    from dragEnd_view [OF d f] h obtain lms' where "limits s' = Some lms'"
      and "createScales s (map (convert (UTCoffset s)) data)
                (XDate (fst (zoomX lms L (Some a) (Some b)))) (XDate (snd (zoomX lms L (Some a) (Some b))))
                (YNum c) (YNum d) = Inr lms'"
      by auto
    then show "\<exists>lms'. limits s' = Some lms' \<and> xMin lms' = newDate (m - L / 2)
              \<and> xMax lms' = newDate (m + L / 2)"
      by (auto simp: z dest: createScales_x)
  qed
  show "limits (core v) = Some lms \<and> xZoomLimit (core v) = L \<and> limitStack v = Some st
           \<and> vfetch (selector_value (core v)) = Some vdata
           \<and> vdragEnd vfetch (Some a) (Some b) c d v = Inr v' \<longrightarrow>
           (\<exists>lms'. limits (core v') = Some lms' \<and> xMin lms' = newDate (m - L / 2)
              \<and> xMax lms' = newDate (m + L / 2))"
  proof
    assume h: "limits (core v) = Some lms \<and> xZoomLimit (core v) = L \<and> limitStack v = Some st
           \<and> vfetch (selector_value (core v)) = Some vdata
           \<and> vdragEnd vfetch (Some a) (Some b) c d v = Inr v'"
    then have l: "limits (core v) = Some lms" and zl: "xZoomLimit (core v) = L"
      and dr: "vdragEnd vfetch (Some a) (Some b) c d v = Inr v'"
      by simp_all
    from dr have u: "vupdateAxes vfetch (XDate (newDate (m - L / 2))) (XDate (newDate (m + L / 2)))
        (YNum c) (YNum d) v = Inr v'"
      by (simp add: vdragEnd_def l zl z)
    from h have st: "limitStack v = Some st" and f: "vfetch (selector_value (core v)) = Some vdata"
      by simp_all
    from vupdateAxes_view [OF u st f] show "\<exists>lms'. limits (core v') = Some lms'
        \<and> xMin lms' = newDate (m - L / 2) \<and> xMax lms' = newDate (m + L / 2)"
      by (auto dest: vlimits_x)
  qed
qed

theorem zoom_width_floor_witness:
  "\<not> js_lt (Some 1578500000000) (xMin ex_limits)
   \<and> \<not> js_lt (xMax ex_limits) (Some 1578500000002)
   \<and> (of_int (1578500000002 - 1578500000000) :: rat) < 2678400000
   \<and> (1578500000001 :: rat) = (of_int 1578500000000 + of_int 1578500000002) / 2
   \<and> \<bar>(1578500000001 :: rat) - 2678400000 / 2\<bar> \<le> 8640000000000000
   \<and> \<bar>(1578500000001 :: rat) + 2678400000 / 2\<bar> \<le> 8640000000000000
   \<and> (1578500000001 :: rat) - 2678400000 / 2 = of_int 1577160800001
   \<and> (1578500000001 :: rat) + 2678400000 / 2 = of_int 1579839200001
   \<and> zoomX ex_limits 2678400000 (Some 1578500000000) (Some 1578500000002)
       = (Some 1577160800001, Some 1579839200001)
   \<and> (of_int (1579839200001 - 1577160800001) :: rat) = 2678400000
   \<and> ((of_int 1577160800001 + of_int 1579839200001) / 2 :: rat) = 1578500000001
   \<and> limits ex_rendered = Some ex_limits \<and> xZoomLimit ex_rendered = 2678400000
   \<and> ex_fetch (selector_value ex_rendered) = ex_fetch ''ethane''
   \<and> dragEnd ex_fetch (Some 1578500000000) (Some 1578500000002) (Some 20) (Some 30) ex_rendered
       = Inr ex_narrow
   \<and> (\<exists>lms'. limits ex_narrow = Some lms'
          \<and> xMin lms' = newDate (1578500000001 - 2678400000 / 2)
          \<and> xMax lms' = newDate (1578500000001 + 2678400000 / 2))
   \<and> \<not> js_lt (Some 1578500000000) (xMin ex_full)
   \<and> \<not> js_lt (xMax ex_full) (Some 1578500000002)
   \<and> limits (core ex_ready) = Some ex_full \<and> xZoomLimit (core ex_ready) = 2678400000
   \<and> limitStack ex_ready = Some [ex_full]
   \<and> ex_vfetch (selector_value (core ex_ready)) = ex_vfetch ''ethane''
   \<and> vdragEnd ex_vfetch (Some 1578500000000) (Some 1578500000002) (Some 20) (Some 30) ex_ready
       = Inr ex_vnarrow
   \<and> (\<exists>lms'. limits (core ex_vnarrow) = Some lms'
          \<and> xMin lms' = newDate (1578500000001 - 2678400000 / 2)
          \<and> xMax lms' = newDate (1578500000001 + 2678400000 / 2))"
proof -
  have p1: "\<not> js_lt (Some 1578500000000) (xMin ex_limits)" by (simp add: ex_limits_def)
  have p2: "\<not> js_lt (xMax ex_limits) (Some 1578500000002)" by (simp add: ex_limits_def)
  have p3: "(of_int (1578500000002 - 1578500000000) :: rat) < 2678400000" by simp
  have p4: "(1578500000001 :: rat) = (of_int 1578500000000 + of_int 1578500000002) / 2" by simp
  have r1: "\<bar>(1578500000001 :: rat) - 2678400000 / 2\<bar> \<le> 8640000000000000" by simp
  have r2: "\<bar>(1578500000001 :: rat) + 2678400000 / 2\<bar> \<le> 8640000000000000" by simp
  have w1: "(1578500000001 :: rat) - 2678400000 / 2 = of_int 1577160800001" by simp
  have w2: "(1578500000001 :: rat) + 2678400000 / 2 = of_int 1579839200001" by simp
  have q1: "\<not> js_lt (Some 1578500000000) (xMin ex_full)" by (simp add: ex_full_def)
  have q2: "\<not> js_lt (xMax ex_full) (Some 1578500000002)" by (simp add: ex_full_def)
  have f1: "limits ex_rendered = Some ex_limits" by code_simp
  have f2: "xZoomLimit ex_rendered = 2678400000" by code_simp
  have f3: "ex_fetch (selector_value ex_rendered) = ex_fetch ''ethane''" by (simp add: ex_fetch_def)
  have f3': "ex_fetch (selector_value ex_rendered)
      = Some [\<lparr>date = 1577844000, val = 37, salt = None\<rparr>,
              \<lparr>date = 1580608800, val = 12, salt = None\<rparr>]" by (simp add: ex_fetch_def)
  have f4: "dragEnd ex_fetch (Some 1578500000000) (Some 1578500000002) (Some 20) (Some 30) ex_rendered
       = Inr ex_narrow" by code_simp
  have v1: "limits (core ex_ready) = Some ex_full" by code_simp
  have v2: "xZoomLimit (core ex_ready) = 2678400000" by code_simp
  have v3: "limitStack ex_ready = Some [ex_full]" by code_simp
  have v4: "ex_vfetch (selector_value (core ex_ready)) = ex_vfetch ''ethane''"
    by (simp add: ex_vfetch_def)
  have v4': "ex_vfetch (selector_value (core ex_ready)) =
     Some [\<lparr>xfields = [(''date'', 1577844000), (''meas_date'', 1577930400)],
            yfields = [(''year'', 2020), (''MR'', 37)]\<rparr>,
           \<lparr>xfields = [(''date'', 1580608800), (''meas_date'', 1580695200)],
            yfields = [(''year'', 2020), (''MR'', 73/2)]\<rparr>]"
    by (simp add: ex_vfetch_def)
  have v5: "vdragEnd ex_vfetch (Some 1578500000000) (Some 1578500000002) (Some 20) (Some 30) ex_ready
       = Inr ex_vnarrow" by code_simp
  note T = zoom_width_floor [OF p1 p2 p3 p4]
  note U = zoom_width_floor [OF q1 q2 p3 p4]
  have z: "zoomX ex_limits 2678400000 (Some 1578500000000) (Some 1578500000002)
       = (Some 1577160800001, Some 1579839200001)"
    using T [THEN conjunct1] by (simp add: newDate_def toInteger_def)
  have e1: "(of_int (1579839200001 - 1577160800001) :: rat) = 2678400000" by simp
  have e2: "((of_int 1577160800001 + of_int 1579839200001) / 2 :: rat) = 1578500000001" by simp
  have d: "\<exists>lms'. limits ex_narrow = Some lms'
          \<and> xMin lms' = newDate (1578500000001 - 2678400000 / 2)
          \<and> xMax lms' = newDate (1578500000001 + 2678400000 / 2)"
    by (rule T [THEN conjunct2, THEN conjunct2, THEN conjunct1, THEN mp,
          OF conjI [OF f1 conjI [OF f2 conjI [OF f3' f4]]]])
  have vd: "\<exists>lms'. limits (core ex_vnarrow) = Some lms'
          \<and> xMin lms' = newDate (1578500000001 - 2678400000 / 2)
          \<and> xMax lms' = newDate (1578500000001 + 2678400000 / 2)"
    by (rule U [THEN conjunct2, THEN conjunct2, THEN conjunct2, THEN mp,
          OF conjI [OF v1 conjI [OF v2 conjI [OF v3 conjI [OF v4' v5]]]]])
  show ?thesis
    by (intro conjI; fact)
qed

text \<open>The claim as it was stated has the width exact and the centre on the midpoint in every
  case. A range of one millisecond in January 2020 gets the width \<open>L\<close> of 31 days around a
  centre half a millisecond before its midpoint, and one at the epoch a width one
  millisecond short of \<open>L\<close>.\<close>

theorem zoom_width_floor_counterexample:
  "\<not> js_lt (Some 1578500000000) (xMin ex_limits)
   \<and> \<not> js_lt (xMax ex_limits) (Some 1578500000001)
   \<and> (of_int (1578500000001 - 1578500000000) :: rat) < 2678400000
   \<and> zoomX ex_limits 2678400000 (Some 1578500000000) (Some 1578500000001)
       = (Some 1577160800000, Some 1579839200000)
   \<and> ((of_int 1577160800000 + of_int 1579839200000) / 2 :: rat)
       \<noteq> (of_int 1578500000000 + of_int 1578500000001) / 2
   \<and> \<not> js_lt (Some 1000) (xMin ex_early) \<and> \<not> js_lt (xMax ex_early) (Some 1001)
   \<and> (of_int (1001 - 1000) :: rat) < 2678400000
   \<and> zoomX ex_early 2678400000 (Some 1000) (Some 1001) = (Some (- 1339198999), Some 1339201000)
   \<and> (of_int (1339201000 - (- 1339198999)) :: rat) \<noteq> 2678400000"
  by code_simp

section \<open>Clear all\<close>

text \<open>
  Claim C8, at an input where the code departs from it. In the fixed-axis variant a point is
  clicked and a zoom is made; \<open>totalRefresh\<close> then empties \<open>selectionsByDate\<close> and the sets
  of \<open>selectionsByCompound\<close>, and leaves the zoom history as it was, with the limits of
  before the zoom still on it.
\<close>

theorem refresh_keeps_zoom_history:
  "zoomHistory ex_used = [ex_limits]
   \<and> selectionsByDate ex_used = [(''2020-02-02 00:00'', [''ethane''])]
   \<and> (case totalRefresh ex_fetch ex_used of
        Inl _ \<Rightarrow> None
      | Inr s \<Rightarrow> Some (zoomHistory s, selectionsByDate s, selectionsByCompound s))
     = Some ([ex_limits], [], [(''ethane'', []), (''propane'', [])])"
  by code_simp

section \<open>Undo\<close>

lemma undoZoom_empty: "zoomHistory s = [] \<Longrightarrow> undoZoom fetch s = Inr s"
  by (simp add: undoZoom_def)

lemma undoZoom_pops:
  assumes "undoZoom fetch s = Inr s'" and "zoomHistory s = st @ [old]"
    and "fetch (selector_value s) = Some data"
  shows "zoomHistory s' = st
       \<and> (\<exists>lms. createScales s (map (convert (UTCoffset s)) data)
                (XDate (xMin old)) (XDate (xMax old)) (YNum (yMin old)) (YNum (yMax old)) = Inr lms
              \<and> limits s' = Some lms)"
  using undoZoom_view [OF assms] by (auto simp: same_view_def)

lemma vundoZoom_pops:
  assumes "vundoZoom fetch s = Inr s'" and "limitStack s = Some st"
    and "fetch (selector_value (core s)) = Some data0"
  shows "\<exists>lms. vlimits (dataXDefault s) (dataYDefault s)
                  (map (vconvert (xOptions s) (UTCoffset (core s))) data0) (butlast st)
                  XNull XNull YNull YNull = Inr lms
           \<and> limits (core s') = Some lms \<and> limitStack s' = Some (pushed (butlast st) lms)"
proof -
  let ?s = "setLimitStack (butlast st) s"
  from assms(1,2) have u: "vupdateAxes fetch XNull XNull YNull YNull ?s = Inr s'"
    by (simp add: vundoZoom_def)
  have ls: "limitStack ?s = Some (butlast st)"
    using assms(2) by (rule limitStack_setLimitStack)
  have f: "fetch (selector_value (core ?s)) = Some data0"
    using assms(3) by simp
  have v: "vsame s ?s" by simp
  from vupdateAxes_view [OF u ls f] show ?thesis
    using v by (auto simp: vsame_def)
qed

text \<open>
  Claim C3, as amended. In the fixed-axis variant the undo handler does nothing when the zoom
  history is empty; otherwise it pops the top and renders with the four bounds of the popped
  limits. In the variable-axis variant the handler pops the top of the stack of the current
  compound and attribute pair, if there is one, and renders without limits in either case,
  which shows the new top, or the full extent of the data when the stack has become, or
  was, empty. In both variants, zooms followed by as many undos bring back the limits and
  the stack of before the zooms, when those limits come from a render of the same data; in
  the variable-axis variant each zoom has to change the limits, and the data have to have
  values of the y attribute.
\<close>

theorem undo_restores:
  "(\<forall>fetch s. zoomHistory s = [] \<longrightarrow> undoZoom fetch s = Inr s)
   \<and> (\<forall>fetch s s' st old data.
        undoZoom fetch s = Inr s' \<and> zoomHistory s = st @ [old]
        \<and> fetch (selector_value s) = Some data \<longrightarrow>
          zoomHistory s' = st
          \<and> (\<exists>lms. createScales s (map (convert (UTCoffset s)) data)
                 (XDate (xMin old)) (XDate (xMax old)) (YNum (yMin old)) (YNum (yMax old)) = Inr lms
               \<and> limits s' = Some lms))
   \<and> (\<forall>fetch zs s s1 s2.
        settled fetch s \<and> zooms fetch zs s = Inr s1 \<and> undos fetch (length zs) s1 = Inr s2 \<longrightarrow>
          limits s2 = limits s \<and> zoomHistory s2 = zoomHistory s)
   \<and> (\<forall>vfetch v v' st data0.
        vundoZoom vfetch v = Inr v' \<and> limitStack v = Some st
        \<and> vfetch (selector_value (core v)) = Some data0 \<longrightarrow>
          (\<exists>lms. vlimits (dataXDefault v) (dataYDefault v)
                   (map (vconvert (xOptions v) (UTCoffset (core v))) data0) (butlast st)
                   XNull XNull YNull YNull = Inr lms
             \<and> limits (core v') = Some lms \<and> limitStack v' = Some (pushed (butlast st) lms)))
   \<and> (\<forall>vfetch zs v v1 v2.
        vsettled vfetch v \<and> distinctZooms vfetch zs v \<and> vzooms vfetch zs v = Inr v1
        \<and> vundos vfetch (length zs) v1 = Inr v2 \<longrightarrow>
          limits (core v2) = limits (core v) \<and> limitStack v2 = limitStack v)"
proof (intro conjI allI impI)
  fix fetch :: "string \<Rightarrow> rat datum list option" and s :: plot
  assume "zoomHistory s = []"
  then show "undoZoom fetch s = Inr s" by (rule undoZoom_empty)
next
  fix fetch s s' st old data
  assume h: "undoZoom fetch s = Inr s' \<and> zoomHistory s = st @ [old]
        \<and> fetch (selector_value s) = Some data"
  then have a: "undoZoom fetch s = Inr s'" and b: "zoomHistory s = st @ [old]"
    and c: "fetch (selector_value s) = Some data" by simp_all
  from undoZoom_pops [OF a b c] show "zoomHistory s' = st"
    and "\<exists>lms. createScales s (map (convert (UTCoffset s)) data)
                (XDate (xMin old)) (XDate (xMax old)) (YNum (yMin old)) (YNum (yMax old)) = Inr lms
              \<and> limits s' = Some lms"
    by simp_all
next
  fix fetch zs s s1 s2
  assume h: "settled fetch s \<and> zooms fetch zs s = Inr s1 \<and> undos fetch (length zs) s1 = Inr s2"
  then have a: "settled fetch s" and b: "zooms fetch zs s = Inr s1"
    and c: "undos fetch (length zs) s1 = Inr s2" by simp_all
  from zooms_undos [OF a b c] show "limits s2 = limits s" and "zoomHistory s2 = zoomHistory s"
    by (simp_all add: same_view_def)
next
  fix vfetch v v' st data0
  assume h: "vundoZoom vfetch v = Inr v' \<and> limitStack v = Some st
        \<and> vfetch (selector_value (core v)) = Some data0"
  then have a: "vundoZoom vfetch v = Inr v'" and b: "limitStack v = Some st"
    and c: "vfetch (selector_value (core v)) = Some data0" by simp_all
  from vundoZoom_pops [OF a b c]
  show "\<exists>lms. vlimits (dataXDefault v) (dataYDefault v)
                   (map (vconvert (xOptions v) (UTCoffset (core v))) data0) (butlast st)
                   XNull XNull YNull YNull = Inr lms
             \<and> limits (core v') = Some lms \<and> limitStack v' = Some (pushed (butlast st) lms)" .
next
  fix vfetch zs v v1 v2
  assume h: "vsettled vfetch v \<and> distinctZooms vfetch zs v \<and> vzooms vfetch zs v = Inr v1
        \<and> vundos vfetch (length zs) v1 = Inr v2"
  then have a: "vsettled vfetch v" and b: "distinctZooms vfetch zs v"
    and c: "vzooms vfetch zs v = Inr v1" and d: "vundos vfetch (length zs) v1 = Inr v2"
    by simp_all
  from vzooms_vundos [OF a b c d] show "limits (core v2) = limits (core v)" and "limitStack v2 = limitStack v"
    by simp_all
qed

theorem undo_restores_witness:
  "zoomHistory ex_rendered = [] \<and> undoZoom ex_fetch ex_rendered = Inr ex_rendered
   \<and> undoZoom ex_fetch ex_in = Inr ex_back \<and> zoomHistory ex_in = [ex_limits] @ [ex_first]
   \<and> ex_fetch (selector_value ex_in) = ex_fetch ''ethane''
   \<and> zoomHistory ex_back = [ex_limits]
   \<and> (\<exists>lms. createScales ex_in (map (convert (UTCoffset ex_in)) (the (ex_fetch ''ethane'')))
          (XDate (xMin ex_first)) (XDate (xMax ex_first))
          (YNum (yMin ex_first)) (YNum (yMax ex_first)) = Inr lms
        \<and> limits ex_back = Some lms)
   \<and> settled ex_fetch ex_rendered \<and> zooms ex_fetch ex_zs ex_rendered = Inr ex_in
   \<and> undos ex_fetch (length ex_zs) ex_in = Inr ex_out
   \<and> limits ex_out = limits ex_rendered \<and> zoomHistory ex_out = zoomHistory ex_rendered
   \<and> vundoZoom ex_vfetch ex_vin = Inr ex_vback
   \<and> limitStack ex_vin = Some [ex_full, ex_first, ex_second]
   \<and> ex_vfetch (selector_value (core ex_vin)) = ex_vfetch ''ethane''
   \<and> (\<exists>lms. vlimits (dataXDefault ex_vin) (dataYDefault ex_vin)
          (map (vconvert (xOptions ex_vin) (UTCoffset (core ex_vin))) (the (ex_vfetch ''ethane'')))
          (butlast [ex_full, ex_first, ex_second]) XNull XNull YNull YNull = Inr lms
        \<and> limits (core ex_vback) = Some lms
        \<and> limitStack ex_vback = Some (pushed (butlast [ex_full, ex_first, ex_second]) lms))
   \<and> vsettled ex_vfetch ex_ready \<and> distinctZooms ex_vfetch ex_zs ex_ready
   \<and> vzooms ex_vfetch ex_zs ex_ready = Inr ex_vin
   \<and> vundos ex_vfetch (length ex_zs) ex_vin = Inr ex_vout
   \<and> limits (core ex_vout) = limits (core ex_ready) \<and> limitStack ex_vout = limitStack ex_ready"
proof -
  have a1: "zoomHistory ex_rendered = []" by code_simp
  have a2: "undoZoom ex_fetch ex_rendered = Inr ex_rendered"
    using undo_restores [THEN conjunct1, rule_format, OF a1] .
  have b1: "undoZoom ex_fetch ex_in = Inr ex_back" by code_simp
  have b2: "zoomHistory ex_in = [ex_limits] @ [ex_first]" by code_simp
  have b3: "ex_fetch (selector_value ex_in) = ex_fetch ''ethane''" by (simp add: ex_fetch_def)
  have b3': "ex_fetch (selector_value ex_in) = Some (the (ex_fetch ''ethane''))"
    by (simp add: ex_fetch_def)
  note B = undo_restores [THEN conjunct2, THEN conjunct1, rule_format,
      OF conjI [OF b1 conjI [OF b2 b3']]]
  have b4: "zoomHistory ex_back = [ex_limits]" using B by (rule conjunct1)
  have b5: "\<exists>lms. createScales ex_in (map (convert (UTCoffset ex_in)) (the (ex_fetch ''ethane'')))
          (XDate (xMin ex_first)) (XDate (xMax ex_first))
          (YNum (yMin ex_first)) (YNum (yMax ex_first)) = Inr lms
        \<and> limits ex_back = Some lms" using B by (rule conjunct2)
  have c1: "settled ex_fetch ex_rendered" by code_simp
  have c2: "zooms ex_fetch ex_zs ex_rendered = Inr ex_in" by code_simp
  have c3: "undos ex_fetch (length ex_zs) ex_in = Inr ex_out" by code_simp
  note C = undo_restores [THEN conjunct2, THEN conjunct2, THEN conjunct1, rule_format,
      OF conjI [OF c1 conjI [OF c2 c3]]]
  have c4: "limits ex_out = limits ex_rendered" using C by (rule conjunct1)
  have c5: "zoomHistory ex_out = zoomHistory ex_rendered" using C by (rule conjunct2)
  have d1: "vundoZoom ex_vfetch ex_vin = Inr ex_vback" by code_simp
  have d2: "limitStack ex_vin = Some [ex_full, ex_first, ex_second]" by code_simp
  have d3: "ex_vfetch (selector_value (core ex_vin)) = ex_vfetch ''ethane''"
    by (simp add: ex_vfetch_def)
  have d3': "ex_vfetch (selector_value (core ex_vin)) = Some (the (ex_vfetch ''ethane''))"
    by (simp add: ex_vfetch_def)
  have d4: "\<exists>lms. vlimits (dataXDefault ex_vin) (dataYDefault ex_vin)
          (map (vconvert (xOptions ex_vin) (UTCoffset (core ex_vin))) (the (ex_vfetch ''ethane'')))
          (butlast [ex_full, ex_first, ex_second]) XNull XNull YNull YNull = Inr lms
        \<and> limits (core ex_vback) = Some lms
        \<and> limitStack ex_vback = Some (pushed (butlast [ex_full, ex_first, ex_second]) lms)"
    using undo_restores [THEN conjunct2, THEN conjunct2, THEN conjunct2, THEN conjunct1,
        rule_format, OF conjI [OF d1 conjI [OF d2 d3']]] .
  have e1: "vsettled ex_vfetch ex_ready" by code_simp
  have e2: "distinctZooms ex_vfetch ex_zs ex_ready" by code_simp
  have e3: "vzooms ex_vfetch ex_zs ex_ready = Inr ex_vin" by code_simp
  have e4: "vundos ex_vfetch (length ex_zs) ex_vin = Inr ex_vout" by code_simp
  note E = undo_restores [THEN conjunct2, THEN conjunct2, THEN conjunct2, THEN conjunct2,
      rule_format, OF conjI [OF e1 conjI [OF e2 conjI [OF e3 e4]]]]
  have e5: "limits (core ex_vout) = limits (core ex_ready)" using E by (rule conjunct1)
  have e6: "limitStack ex_vout = limitStack ex_ready" using E by (rule conjunct2)
  show ?thesis
    by (intro conjI; fact)
qed

text \<open>The claim as it was stated has the undo a no-op on an empty stack in both variants. In
  the variable-axis variant, after a first request that failed, the stack of the current
  compound and attributes is empty and there are no limits; a click on the undo button then
  renders the full extent of the data and pushes it.\<close>

theorem undo_restores_counterexample:
  "limitStack ex_pending = Some [] \<and> limits (core ex_pending) = None
   \<and> (case vundoZoom ex_vfetch ex_pending of
        Inl _ \<Rightarrow> None
      | Inr s \<Rightarrow> Some (limitStack s, limits (core s)))
     = Some (Some [ex_full], Some ex_full)"
  by code_simp

end
